theory Spec2Isabelle
  imports Complex_Main "HOL-Library.Sublist"
begin

section \<open>Values, frames and errors\<close>

text \<open>
  The module \<^verbatim>\<open>rl_utils/plotting/auto_table.py\<close> has one function of substance,
  \<^verbatim>\<open>plot_table\<close>. It reads a pandas data frame, aggregates one column per
  (row group, column group) and assembles a LaTeX table as a string.

  A cell of the frame is a number, a string or NaN. Numbers are modelled as exact
  reals: the rounding of binary floating point is not part of the model. An aggregated
  number is a \<open>real option\<close>, with \<open>None\<close> for NaN. A frame is the list of its
  records, each a finite map from column names to cells; a column exists when every
  record has it, and selecting a column that some record lacks is a \<open>KeyError\<close>.
\<close>

datatype pyval = Num real | Str string | NaN

datatype py_error = KeyError | TypeError | IndexError

text \<open>
  \<^verbatim>\<open>value_scaling\<close> is annotated \<^verbatim>\<open>float\<close> with default \<^verbatim>\<open>1.0\<close>; Python does not
  enforce the annotation, and an integer behaves differently on a string cell, so both
  are kept apart.
\<close>

datatype scaling = IntS int | FloatS real

type_synonym drow = "string \<rightharpoonup> pyval"
type_synonym dataframe = "drow list"
type_synonym series = "pyval \<rightharpoonup> real option"

fun traverse :: "('a \<Rightarrow> 'e + 'b) \<Rightarrow> 'a list \<Rightarrow> 'e + 'b list" where
  "traverse f [] = Inr []"
| "traverse f (x # xs) =
     (case f x of
        Inl e \<Rightarrow> Inl e
      | Inr y \<Rightarrow> (case traverse f xs of Inl e \<Rightarrow> Inl e | Inr ys \<Rightarrow> Inr (y # ys)))"

definition get_column :: "string \<Rightarrow> dataframe \<Rightarrow> py_error + pyval list" where
  "get_column c df = traverse (\<lambda>r. case r c of None \<Rightarrow> Inl KeyError | Some v \<Rightarrow> Inr v) df"

section \<open>Line 95: scaling the value column in place\<close>

text \<open>
  \<^verbatim>\<open>df[cell_key] = df[cell_key] * value_scaling\<close> multiplies cell by cell. On a column
  that holds a string pandas applies Python's own \<^verbatim>\<open>*\<close> to each cell: a string times
  an integer is the string repeated, a string times a float raises \<^verbatim>\<open>TypeError\<close>.
  The assignment writes the new column into the frame object the caller passed.
\<close>

fun scale_factor :: "scaling \<Rightarrow> real" where
  "scale_factor (IntS n) = of_int n"
| "scale_factor (FloatS s) = s"

fun mul_cell :: "scaling \<Rightarrow> pyval \<Rightarrow> py_error + pyval" where
  "mul_cell s (Num x) = Inr (Num (x * scale_factor s))"
| "mul_cell s NaN = Inr NaN"
| "mul_cell (IntS n) (Str t) = Inr (Str (concat (replicate (nat n) t)))"
| "mul_cell (FloatS s) (Str t) = Inl TypeError"

definition scale_column :: "string \<Rightarrow> scaling \<Rightarrow> dataframe \<Rightarrow> py_error + dataframe" where
  "scale_column c s df =
     (case get_column c df of
        Inl e \<Rightarrow> Inl e
      | Inr vs \<Rightarrow>
          (case traverse (mul_cell s) vs of
             Inl e \<Rightarrow> Inl e
           | Inr ws \<Rightarrow> Inr (map2 (\<lambda>r w. r(c \<mapsto> w)) df ws)))"

section \<open>Lines 103-104: replacing the sentinel strings\<close>

text \<open>
  \<^verbatim>\<open>df.replace("missing", missing_fill_value)\<close> builds a new frame in which every cell
  equal to the string, in any column, is the fill value. The caller's frame is not
  touched by it.
\<close>

definition replace_cell :: "string \<Rightarrow> real \<Rightarrow> pyval \<Rightarrow> pyval" where
  "replace_cell s x v = (if v = Str s then Num x else v)"

definition replace_df :: "string \<Rightarrow> real \<Rightarrow> dataframe \<Rightarrow> dataframe" where
  "replace_df s x df = map (\<lambda>r c. map_option (replace_cell s x) (r c)) df"

section \<open>Lines 106-122: grouping and aggregation\<close>

text \<open>
  \<^verbatim>\<open>groupby\<close> forms one group per distinct key and drops the records whose key is
  NaN. pandas sorts the keys; the model lists them in order of appearance, and the
  order is observed nowhere: the groups are only looked up by key, and the callbacks
  of the model receive finite maps.

  \<^verbatim>\<open>mean\<close> and \<^verbatim>\<open>std\<close> skip NaN cells. The mean of no number is NaN, and so is the
  sample standard deviation (\<open>ddof = 1\<close>) of fewer than two numbers. A string left
  in the column makes the aggregation fail.
\<close>

definition group_keys :: "string \<Rightarrow> dataframe \<Rightarrow> py_error + pyval list" where
  "group_keys c df =
     (case get_column c df of
        Inl e \<Rightarrow> Inl e
      | Inr vs \<Rightarrow> Inr (remdups (filter (\<lambda>v. v \<noteq> NaN) vs)))"

definition group_rows :: "string \<Rightarrow> pyval \<Rightarrow> dataframe \<Rightarrow> dataframe" where
  "group_rows c k df = filter (\<lambda>r. r c = Some k) df"

fun is_str :: "pyval \<Rightarrow> bool" where
  "is_str (Str t) = True"
| "is_str v = False"

fun num_of :: "pyval \<Rightarrow> real list" where
  "num_of (Num x) = [x]"
| "num_of v = []"

definition numbers :: "pyval list \<Rightarrow> py_error + real list" where
  "numbers vs = (if list_ex is_str vs then Inl TypeError else Inr (concat (map num_of vs)))"

definition mean :: "real list \<Rightarrow> real option" where
  "mean xs = (if xs = [] then None else Some (sum_list xs / real (length xs)))"

definition sample_std :: "real list \<Rightarrow> real option" where
  "sample_std xs =
     (if length xs < 2 then None
      else Some (sqrt (sum_list (map (\<lambda>x. (x - sum_list xs / real (length xs))\<^sup>2) xs)
                       / real (length xs - 1))))"

definition agg ::
  "(real list \<Rightarrow> real option) \<Rightarrow> string \<Rightarrow> dataframe \<Rightarrow> (pyval \<times> dataframe) list
    \<Rightarrow> py_error + (pyval \<times> real option) list" where
  "agg f c row_df groups =
     (case get_column c row_df of
        Inl e \<Rightarrow> Inl e
      | Inr _ \<Rightarrow>
          traverse
            (\<lambda>(k, g). case numbers (List.map_filter (\<lambda>r. r c) g) of
                         Inl e \<Rightarrow> Inl e
                       | Inr xs \<Rightarrow> Inr (k, f xs))
            groups)"

definition hasnans :: "(pyval \<times> real option) list \<Rightarrow> bool" where
  "hasnans s = list_ex (\<lambda>(k, v). v = None) s"

section \<open>The configuration\<close>

text \<open>
  The keyword arguments of \<^verbatim>\<open>plot_table\<close>. An optional callback is an
  \<open>option\<close>. A callback is a pure function of what the code passes to it: the
  series handed to a highlight callback is the finite map from its labels to its
  values, and \<^verbatim>\<open>compute_err_fn\<close> receives the value cells of every column group.
  \<^verbatim>\<open>missing_fill_value\<close> defaults to a constant of another module and is a
  parameter here, as it is for the caller.
\<close>

record config =
  col_key :: string
  row_key :: string
  cell_key :: string
  col_order :: "string list"
  row_order :: "string list"
  renames :: "string \<rightharpoonup> string"
  error_scaling :: real
  n_decimals :: nat
  missing_fill_value :: real
  error_fill_value :: real
  get_row_highlights :: "(string \<Rightarrow> series \<Rightarrow> string list option) option"
  get_col_highlights :: "(string \<Rightarrow> series \<Rightarrow> pyval list) option"
  make_col_header :: "(nat \<Rightarrow> string) option"
  x_label :: string
  y_label :: string
  skip_toprule :: bool
  include_err :: bool
  write_to :: "string option"
  err_key :: "string option"
  add_tabular :: bool
  add_botrule :: bool
  name_bold_fn :: "(string \<Rightarrow> string) option"
  show_row_labels :: bool
  show_col_labels :: bool
  compute_err_fn :: "((pyval \<rightharpoonup> pyval list) \<Rightarrow> series) option"
  value_scaling :: scaling
  midrule_formatting :: string
  botrule_formatting :: string
  text_columns :: "string \<rightharpoonup> (string \<rightharpoonup> string)"
  alternating_color_rows :: bool
  custom_cell_format_fn ::
    "(real option \<Rightarrow> real option \<Rightarrow> string \<Rightarrow> string \<Rightarrow> string list option \<Rightarrow> string) option"

text \<open>
  The body of the loop of line 107, for the records \<open>row_df\<close> of one row group. The
  error column is selected when \<^verbatim>\<open>err_key\<close> is given and the series of its means
  has no NaN; otherwise \<^verbatim>\<open>compute_err_fn\<close>, when given, replaces the scaled
  standard deviation.
\<close>

definition col_groups :: "config \<Rightarrow> dataframe \<Rightarrow> py_error + (pyval \<times> dataframe) list" where
  "col_groups cfg row_df =
     (case group_keys (col_key cfg) row_df of
        Inl e \<Rightarrow> Inl e
      | Inr cks \<Rightarrow> Inr (map (\<lambda>k. (k, group_rows (col_key cfg) k row_df)) cks))"

definition scaled_std :: "config \<Rightarrow> (pyval \<times> real option) list \<Rightarrow> (pyval \<times> real option) list" where
  "scaled_std cfg sd = map (\<lambda>(k, s). (k, map_option (\<lambda>x. x * error_scaling cfg) s)) sd"

definition select_err ::
  "config \<Rightarrow> dataframe \<Rightarrow> (pyval \<times> dataframe) list
    \<Rightarrow> py_error + (pyval \<times> real option) list option" where
  "select_err cfg row_df groups =
     (case err_key cfg of
        None \<Rightarrow> Inr None
      | Some ek \<Rightarrow>
          (case agg mean ek row_df groups of
             Inl e \<Rightarrow> Inl e
           | Inr err \<Rightarrow> Inr (if \<not> hasnans err then Some err else None)))"

definition fallback_err ::
  "config \<Rightarrow> (pyval \<times> dataframe) list \<Rightarrow> (pyval \<times> real option) list \<Rightarrow> series" where
  "fallback_err cfg groups std0 =
     (case compute_err_fn cfg of
        None \<Rightarrow> map_of std0
      | Some f \<Rightarrow>
          f (map_of (map (\<lambda>(k, g). (k, List.map_filter (\<lambda>r. r (cell_key cfg)) g)) groups)))"

definition row_group :: "config \<Rightarrow> dataframe \<Rightarrow> py_error + (series \<times> series)" where
  "row_group cfg row_df =
     (case col_groups cfg row_df of
        Inl e \<Rightarrow> Inl e
      | Inr groups \<Rightarrow>
          (case agg mean (cell_key cfg) row_df groups of
             Inl e \<Rightarrow> Inl e
           | Inr df_avg_y \<Rightarrow>
               (case agg sample_std (cell_key cfg) row_df groups of
                  Inl e \<Rightarrow> Inl e
                | Inr sd \<Rightarrow>
                    (case select_err cfg row_df groups of
                       Inl e \<Rightarrow> Inl e
                     | Inr (Some err) \<Rightarrow> Inr (map_of df_avg_y, map_of err)
                     | Inr None \<Rightarrow>
                         Inr (map_of df_avg_y,
                              fallback_err cfg groups (scaled_std cfg sd))))))"

definition aggregate :: "config \<Rightarrow> dataframe \<Rightarrow> py_error + (pyval \<rightharpoonup> series \<times> series)" where
  "aggregate cfg df =
     (case group_keys (row_key cfg) df of
        Inl e \<Rightarrow> Inl e
      | Inr rks \<Rightarrow>
          (case traverse
                  (\<lambda>rk. case row_group cfg (group_rows (row_key cfg) rk df) of
                           Inl e \<Rightarrow> Inl e
                         | Inr p \<Rightarrow> Inr (rk, p))
                  rks of
             Inl e \<Rightarrow> Inl e
           | Inr al \<Rightarrow> Inr (map_of al)))"

section \<open>Strings\<close>

text \<open>
  The backslash and the newline are written by their codes. \<open>join\<close> is Python's
  \<^verbatim>\<open>sep.join\<close>, \<open>contains\<close> is the substring test \<^verbatim>\<open>s in t\<close>, and
  \<open>replace_char\<close> is \<^verbatim>\<open>str.replace\<close> for a pattern of one character.
\<close>

definition bs :: string where
  "bs = [CHR 0x5C]"

definition nl :: string where
  "nl = [CHR 0x0A]"

definition col_sep :: string where
  "col_sep = '' & ''"

definition row_sep :: string where
  "row_sep = '' '' @ bs @ bs @ nl"

fun join :: "string \<Rightarrow> string list \<Rightarrow> string" where
  "join sep [] = []"
| "join sep [x] = x"
| "join sep (x # y # ys) = x @ sep @ join sep (y # ys)"

fun contains :: "string \<Rightarrow> string \<Rightarrow> bool" where
  "contains s [] = (s = [])"
| "contains s (c # cs) = (prefix s (c # cs) \<or> contains s cs)"

definition replace_char :: "char \<Rightarrow> string \<Rightarrow> string \<Rightarrow> string" where
  "replace_char a new s = concat (map (\<lambda>c. if c = a then new else [c]) s)"

definition clean_text :: "string \<Rightarrow> string" where
  "clean_text s = replace_char (CHR ''_'') '' '' (replace_char (CHR ''%'') (bs @ ''%'') s)"

definition textbf :: "string \<Rightarrow> string" where
  "textbf s = bs @ ''textbf{'' @ s @ ''}''"

definition digit :: "nat \<Rightarrow> char" where
  "digit d = ''0123456789'' ! d"

fun str_nat :: "nat \<Rightarrow> string" where
  "str_nat n = (if n < 10 then [digit n] else str_nat (n div 10) @ [digit (n mod 10)])"

declare str_nat.simps [simp del]

text \<open>
  \<^verbatim>\<open>"%.nf" % x\<close> on the exact value: the sign, then \<open>\<bar>x\<bar>\<close> rounded to \<open>n\<close>
  decimals with ties to the even neighbour, the fraction padded with zeros to \<open>n\<close>
  digits, and no point when \<open>n = 0\<close>. NaN prints as \<^verbatim>\<open>nan\<close>.
\<close>

definition round_half_even :: "real \<Rightarrow> int" where
  "round_half_even y =
     (let f = \<lfloor>y\<rfloor>; d = y - of_int f
      in if d < 1 / 2 then f else if 1 / 2 < d then f + 1 else if even f then f else f + 1)"

definition pad_zeros :: "nat \<Rightarrow> string \<Rightarrow> string" where
  "pad_zeros n s = replicate (n - length s) (CHR ''0'') @ s"

fun fmt_float :: "nat \<Rightarrow> real option \<Rightarrow> string" where
  "fmt_float n None = ''nan''"
| "fmt_float n (Some x) =
     (let q = nat (round_half_even (\<bar>x\<bar> * 10 ^ n))
      in (if x < 0 then ''-'' else []) @ str_nat (q div 10 ^ n)
         @ (if n = 0 then [] else ''.'' @ pad_zeros n (str_nat (q mod 10 ^ n))))"

section \<open>Lines 132-216: the header row and the data rows\<close>

definition display :: "config \<Rightarrow> string \<Rightarrow> string" where
  "display cfg k = clean_text (case renames cfg k of None \<Rightarrow> k | Some d \<Rightarrow> d)"

definition header_row :: "config \<Rightarrow> string" where
  "header_row cfg =
     join col_sep
       ((if show_row_labels cfg then [[]] else [])
        @ map (\<lambda>col_k. textbf (display cfg col_k)) (col_order cfg))"

definition row_label :: "config \<Rightarrow> string \<Rightarrow> string list" where
  "row_label cfg row_k =
     (if show_row_labels cfg
      then [case name_bold_fn cfg of
              None \<Rightarrow> textbf (display cfg row_k)
            | Some f \<Rightarrow> f (display cfg row_k)]
      else [])"

text \<open>
  Lines 161-184. The column callback is asked once per key of the dictionary
  \<^verbatim>\<open>all_col_values\<close>, whose keys are the entries of \<^verbatim>\<open>col_order\<close>, each once, in
  order of first occurrence.
\<close>

definition first_occurrences :: "'a list \<Rightarrow> 'a list" where
  "first_occurrences xs = rev (remdups (rev xs))"

definition col_values :: "(pyval \<rightharpoonup> series \<times> series) \<Rightarrow> string \<Rightarrow> series" where
  "col_values rows col =
     (\<lambda>row_name. case rows row_name of
                    None \<Rightarrow> None
                  | Some (row_y, row_std) \<Rightarrow> row_y (Str col))"

definition select_cols ::
  "config \<Rightarrow> (pyval \<rightharpoonup> series \<times> series) \<Rightarrow> string \<Rightarrow> series \<Rightarrow> string list option" where
  "select_cols cfg rows row_k row_y =
     (case get_row_highlights cfg of
        Some f \<Rightarrow> f row_k row_y
      | None \<Rightarrow>
          (case get_col_highlights cfg of
             Some g \<Rightarrow>
               Some (filter (\<lambda>col_k. Str row_k \<in> set (g col_k (col_values rows col_k)))
                       (first_occurrences (col_order cfg)))
           | None \<Rightarrow> None))"

definition selected :: "string list option \<Rightarrow> string \<Rightarrow> bool" where
  "selected sel_cols col_k = (case sel_cols of None \<Rightarrow> False | Some cs \<Rightarrow> col_k \<in> set cs)"

definition err_text :: "config \<Rightarrow> real option \<Rightarrow> string" where
  "err_text cfg std =
     (if include_err cfg \<and> std \<noteq> None
      then ''{'' @ bs @ ''scriptsize ''
           @ (''$ '' @ bs @ ''pm$ '' @ fmt_float (n_decimals cfg) std @ '' '') @ '' }''
      else [])"

definition number_text ::
  "config \<Rightarrow> string list option \<Rightarrow> string \<Rightarrow> real option \<Rightarrow> real option \<Rightarrow> string" where
  "number_text cfg sel_cols col_k val std =
     (let txt = '' '' @ fmt_float (n_decimals cfg) val @ '' '' @ err_text cfg std
      in if selected sel_cols col_k then bs @ ''textbf{ '' @ txt @ '' }'' else txt)"

text \<open>Lines 187-210: the text of one cell.\<close>

definition cell_text ::
  "config \<Rightarrow> string \<Rightarrow> string list option \<Rightarrow> series \<Rightarrow> series \<Rightarrow> string \<Rightarrow> py_error + string" where
  "cell_text cfg row_k sel_cols row_y row_std col_k =
     (case text_columns cfg col_k of
        Some m \<Rightarrow> Inr (case m row_k of None \<Rightarrow> ''-'' | Some t \<Rightarrow> t)
      | None \<Rightarrow>
          (case row_y (Str col_k) of
             None \<Rightarrow> Inr ''-''
           | Some val \<Rightarrow>
               (case row_std (Str col_k) of
                  None \<Rightarrow> Inl KeyError
                | Some std \<Rightarrow>
                    if val = Some (missing_fill_value cfg * scale_factor (value_scaling cfg))
                    then Inr ''-''
                    else if val = Some (error_fill_value cfg) then Inr ''E''
                    else (case custom_cell_format_fn cfg of
                            None \<Rightarrow> Inr (number_text cfg sel_cols col_k val std)
                          | Some f \<Rightarrow> Inr (f val std col_k row_k sel_cols)))))"

definition hline_row :: string where
  "hline_row = bs @ ''hline''"

definition blank_row :: "config \<Rightarrow> string \<Rightarrow> string" where
  "blank_row cfg row_k = join col_sep (row_label cfg row_k @ map (\<lambda>_. []) (col_order cfg))"

definition diagnostic :: "string \<Rightarrow> string" where
  "diagnostic row_k = ''Could not find  '' @ row_k"

definition colour :: "config \<Rightarrow> nat \<Rightarrow> string \<Rightarrow> string" where
  "colour cfg row_index row_str =
     (if row_index mod 2 = 0 \<and> alternating_color_rows cfg
      then bs @ ''rowcolor{Gray} '' @ row_str else row_str)"

definition data_row ::
  "config \<Rightarrow> (pyval \<rightharpoonup> series \<times> series) \<Rightarrow> string \<Rightarrow> series \<Rightarrow> series \<Rightarrow> py_error + string" where
  "data_row cfg rows row_k row_y row_std =
     (case traverse (cell_text cfg row_k (select_cols cfg rows row_k row_y) row_y row_std)
             (col_order cfg) of
        Inl e \<Rightarrow> Inl e
      | Inr cells \<Rightarrow> Inr (join col_sep (row_label cfg row_k @ cells)))"

text \<open>
  The loop of line 141, from the counter \<open>row_index\<close> on: the lines appended to
  \<^verbatim>\<open>all_s\<close> and the diagnostics printed, or the exception that ends the call.
\<close>

fun row_loop ::
  "config \<Rightarrow> (pyval \<rightharpoonup> series \<times> series) \<Rightarrow> nat \<Rightarrow> string list
    \<Rightarrow> py_error + (string list \<times> string list)" where
  "row_loop cfg rows row_index [] = Inr ([], [])"
| "row_loop cfg rows row_index (row_k # ks) =
     (if row_k = ''hline''
      then (case row_loop cfg rows 0 ks of
              Inl e \<Rightarrow> Inl e
            | Inr (ls, ds) \<Rightarrow> Inr (hline_row # ls, ds))
      else
        (case rows (Str row_k) of
           None \<Rightarrow>
             (case row_loop cfg rows row_index ks of
                Inl e \<Rightarrow> Inl e
              | Inr (ls, ds) \<Rightarrow> Inr (blank_row cfg row_k # ls, diagnostic row_k # ds))
         | Some (row_y, row_std) \<Rightarrow>
             (case data_row cfg rows row_k row_y row_std of
                Inl e \<Rightarrow> Inl e
              | Inr row_str \<Rightarrow>
                  (case row_loop cfg rows (row_index + 1) ks of
                     Inl e \<Rightarrow> Inl e
                   | Inr (ls, ds) \<Rightarrow> Inr (colour cfg (row_index + 1) row_str # ls, ds)))))"

section \<open>Lines 218-287: assembling the table\<close>

text \<open>
  Lines 257-268. After each line but the last (after the last too, when
  \<^verbatim>\<open>add_botrule\<close> is set) comes the row separator, or a bare newline when the line
  has the substring \<^verbatim>\<open>hline\<close>.
\<close>

definition separator :: "bool \<Rightarrow> bool \<Rightarrow> string \<Rightarrow> string" where
  "separator botrule_added is_last row_line =
     (if is_last \<and> \<not> botrule_added then []
      else if \<not> contains ''hline'' row_line then row_sep
      else nl)"

fun join_rows :: "bool \<Rightarrow> string list \<Rightarrow> string" where
  "join_rows botrule_added [] = []"
| "join_rows botrule_added (row_line # rest) =
     row_line @ separator botrule_added (rest = []) row_line @ join_rows botrule_added rest"

definition n_columns :: "config \<Rightarrow> nat" where
  "n_columns cfg = length (col_order cfg) + (if show_row_labels cfg then 1 else 0)"

definition col_header :: "config \<Rightarrow> string" where
  "col_header cfg =
     (case make_col_header cfg of
        None \<Rightarrow> replicate (n_columns cfg) (CHR ''c'')
      | Some f \<Rightarrow> f (n_columns cfg))"

definition cmidrule :: "config \<Rightarrow> string" where
  "cmidrule cfg = bs @ ''cmidrule{2-'' @ str_nat (n_columns cfg + 1) @ ''}'' @ nl"

definition multirow :: "config \<Rightarrow> string" where
  "multirow cfg = bs @ ''multirow{4}{1em}{'' @ bs @ ''rotatebox{90}{'' @ y_label cfg @ ''}}''"

definition x_label_row :: "config \<Rightarrow> string" where
  "x_label_row cfg =
     (if x_label cfg \<noteq> []
      then ''& '' @ bs @ ''multicolumn{'' @ str_nat (n_columns cfg) @ ''}{c}{'' @ x_label cfg @ ''}''
           @ row_sep
      else [])"

text \<open>
  The layout chosen at lines 222-238: the column specification, the start of each
  line, the three rules and the lines of the body. With a side label the first body
  line takes the rotated label, and a table without body lines fails there.
\<close>

record layout =
  col_header_s :: string
  start_of_line :: string
  toprule :: string
  midrule :: string
  botrule :: string
  row_lines :: "string list"

definition choose_layout :: "config \<Rightarrow> string list \<Rightarrow> py_error + layout" where
  "choose_layout cfg body =
     (if y_label cfg \<noteq> []
      then (case map (\<lambda>x. '' & '' @ x) body of
              [] \<Rightarrow> Inl IndexError
            | first # rest \<Rightarrow>
                Inr \<lparr>col_header_s = ''c'' @ col_header cfg, start_of_line = '' & '',
                     toprule = [], midrule = cmidrule cfg, botrule = cmidrule cfg,
                     row_lines = (multirow cfg @ first) # rest\<rparr>)
      else Inr \<lparr>col_header_s = col_header cfg, start_of_line = [],
                toprule = bs @ ''toprule'' @ nl, midrule = midrule_formatting cfg,
                botrule = botrule_formatting cfg, row_lines = body\<rparr>)"

definition assemble :: "config \<Rightarrow> string \<Rightarrow> layout \<Rightarrow> string" where
  "assemble cfg header lay =
     (if add_tabular cfg
      then bs @ ''begin{tabular}{'' @ col_header_s lay @ ''}'' @ nl
           @ (if skip_toprule cfg then [] else toprule lay) @ x_label_row cfg
      else [])
     @ (if show_col_labels cfg then start_of_line lay @ header @ row_sep @ midrule lay else [])
     @ join_rows (add_botrule cfg) (row_lines lay)
     @ (if add_tabular cfg then botrule lay @ nl @ bs @ ''end{tabular}'' @ nl else [])
     @ (if add_botrule cfg then botrule lay else [])"

text \<open>
  What a call leaves behind besides the returned string: the lines printed to the
  console, in order, and the file written.
\<close>

record outcome =
  ret_s :: string
  console :: "string list"
  written :: "(string \<times> string) option"

definition emit :: "config \<Rightarrow> string list \<Rightarrow> string \<Rightarrow> outcome" where
  "emit cfg diagnostics s =
     (case write_to cfg of
        Some path \<Rightarrow>
          \<lparr>ret_s = s, console = diagnostics @ [''Wrote result to '' @ path],
           written = Some (path, s)\<rparr>
      | None \<Rightarrow> \<lparr>ret_s = s, console = diagnostics @ [s], written = None\<rparr>)"

definition sanitize :: "config \<Rightarrow> dataframe \<Rightarrow> dataframe" where
  "sanitize cfg df =
     replace_df ''error'' (error_fill_value cfg)
       (replace_df ''missing'' (missing_fill_value cfg) df)"

definition render :: "config \<Rightarrow> dataframe \<Rightarrow> py_error + outcome" where
  "render cfg df =
     (case aggregate cfg df of
        Inl e \<Rightarrow> Inl e
      | Inr rows \<Rightarrow>
          (case row_loop cfg rows 0 (row_order cfg) of
             Inl e \<Rightarrow> Inl e
           | Inr (body, diagnostics) \<Rightarrow>
               (case choose_layout cfg body of
                  Inl e \<Rightarrow> Inl e
                | Inr lay \<Rightarrow> Inr (emit cfg diagnostics (assemble cfg (header_row cfg) lay)))))"

text \<open>
  \<^verbatim>\<open>plot_table\<close>: the frame object of the caller as the call leaves it, and the
  outcome of the call or the exception it raises. The frame of the caller changes at
  line 95 only; when that line raises, nothing has been assigned.
\<close>

definition plot_table :: "config \<Rightarrow> dataframe \<Rightarrow> dataframe \<times> (py_error + outcome)" where
  "plot_table cfg df =
     (case scale_column (cell_key cfg) (value_scaling cfg) df of
        Inl e \<Rightarrow> (df, Inl e)
      | Inr scaled \<Rightarrow> (scaled, render cfg (sanitize cfg scaled)))"

text \<open>
  The defaults of the signature, for the five required arguments and a value of the
  constant \<^verbatim>\<open>MISSING_VALUE\<close>.
\<close>

definition defaults ::
  "string \<Rightarrow> string \<Rightarrow> string \<Rightarrow> string list \<Rightarrow> string list \<Rightarrow> real \<Rightarrow> config" where
  "defaults ck rk vk cols rws missing =
     \<lparr>col_key = ck, row_key = rk, cell_key = vk, col_order = cols, row_order = rws,
      renames = Map.empty, error_scaling = 1, n_decimals = 2, missing_fill_value = missing,
      error_fill_value = 3444 / 10000, get_row_highlights = None, get_col_highlights = None,
      make_col_header = None, x_label = [], y_label = [], skip_toprule = False,
      include_err = True, write_to = None, err_key = None, add_tabular = True,
      add_botrule = False, name_bold_fn = None, show_row_labels = True,
      show_col_labels = True, compute_err_fn = None, value_scaling = FloatS 1,
      midrule_formatting = bs @ ''midrule'' @ nl, botrule_formatting = bs @ ''bottomrule'',
      text_columns = Map.empty, alternating_color_rows = False,
      custom_cell_format_fn = None\<rparr>"

section \<open>Notions used in the statements\<close>

text \<open>
  A key of \<^verbatim>\<open>row_order\<close> is absent when it is not the break marker and the
  dictionary \<^verbatim>\<open>rows\<close> has no entry for it (line 154). A key is rendered without an
  exception when it is the break marker, or absent, or its cells can all be
  formatted.
\<close>

definition absent :: "(pyval \<rightharpoonup> series \<times> series) \<Rightarrow> string \<Rightarrow> bool" where
  "absent rows row_k = (row_k \<noteq> ''hline'' \<and> rows (Str row_k) = None)"

definition row_ok :: "config \<Rightarrow> (pyval \<rightharpoonup> series \<times> series) \<Rightarrow> string \<Rightarrow> bool" where
  "row_ok cfg rows k =
     (k = ''hline'' \<or>
      (case rows (Str k) of
         None \<Rightarrow> True
       | Some (y, s) \<Rightarrow> (case data_row cfg rows k y s of Inl e \<Rightarrow> False | Inr t \<Rightarrow> True)))"

text \<open>
  The records of the cell \<open>(a, b)\<close>, the numbers a column holds in some records
  (NaN cells skipped, as the aggregations do), and the two statistics of a cell as
  \<^verbatim>\<open>rows\<close> stores them.
\<close>

definition cell_records :: "config \<Rightarrow> pyval \<Rightarrow> pyval \<Rightarrow> dataframe \<Rightarrow> dataframe" where
  "cell_records cfg a b d =
     filter (\<lambda>r. r (row_key cfg) = Some a \<and> r (col_key cfg) = Some b) d"

definition column_values :: "string \<Rightarrow> dataframe \<Rightarrow> real list" where
  "column_values c g = concat (map num_of (List.map_filter (\<lambda>r. r c) g))"

definition central ::
  "config \<Rightarrow> dataframe \<Rightarrow> pyval \<Rightarrow> pyval \<Rightarrow> py_error + real option option" where
  "central cfg d a b =
     (case aggregate cfg d of
        Inl e \<Rightarrow> Inl e
      | Inr rows \<Rightarrow> Inr (case rows a of None \<Rightarrow> None | Some (avg, std) \<Rightarrow> avg b))"

definition dispersion ::
  "config \<Rightarrow> dataframe \<Rightarrow> pyval \<Rightarrow> pyval \<Rightarrow> py_error + real option option" where
  "dispersion cfg d a b =
     (case aggregate cfg d of
        Inl e \<Rightarrow> Inl e
      | Inr rows \<Rightarrow> Inr (case rows a of None \<Rightarrow> None | Some (avg, std) \<Rightarrow> std b))"

text \<open>A small table used to run the definitions.\<close>

definition demo_cfg :: config where
  "demo_cfg = (defaults ''c'' ''r'' ''v'' [''x''] [''a'', ''zz'', ''hline'', ''a''] 7)
     \<lparr>alternating_color_rows := True\<rparr>"

definition demo_rows :: "pyval \<rightharpoonup> series \<times> series" where
  "demo_rows = [Str ''a'' \<mapsto> ([Str ''x'' \<mapsto> Some 1], [Str ''x'' \<mapsto> None])]"

definition demo_frame :: dataframe where
  "demo_frame = [[''r'' \<mapsto> Str ''a'', ''c'' \<mapsto> Str ''x'', ''v'' \<mapsto> Num 1]]"

definition table_of :: "string \<Rightarrow> string" where
  "table_of num =
     bs @ ''begin{tabular}{cc}'' @ nl @ bs @ ''toprule'' @ nl
     @ '' & '' @ bs @ ''textbf{x}'' @ row_sep @ bs @ ''midrule'' @ nl
     @ bs @ ''textbf{a} &  '' @ num @ '' '' @ row_sep
     @ bs @ ''textbf{zz} & '' @ row_sep
     @ bs @ ''hline'' @ nl
     @ bs @ ''textbf{a} &  '' @ num @ '' ''
     @ bs @ ''bottomrule'' @ nl @ bs @ ''end{tabular}'' @ nl"

definition demo_table :: string where
  "demo_table = table_of ''1.00''"

text \<open>
  A column exists in a frame when every record has it; it can be aggregated when,
  besides, it holds no string. \<open>keys_of\<close> lists the group keys of a column. The
  error column is selected for the row group \<open>a\<close> (lines 113-117) when it is named
  and every column group of \<open>a\<close> has a number in it.
\<close>

definition has_col :: "string \<Rightarrow> dataframe \<Rightarrow> bool" where
  "has_col c d = list_all (\<lambda>r. r c \<noteq> None) d"

definition no_str :: "string \<Rightarrow> dataframe \<Rightarrow> bool" where
  "no_str c d = list_all (\<lambda>r. case r c of None \<Rightarrow> False | Some v \<Rightarrow> \<not> is_str v) d"

definition keys_of :: "string \<Rightarrow> dataframe \<Rightarrow> pyval list" where
  "keys_of c d = remdups (filter (\<lambda>v. v \<noteq> NaN) (List.map_filter (\<lambda>r. r c) d))"

definition err_selected :: "config \<Rightarrow> dataframe \<Rightarrow> pyval \<Rightarrow> bool" where
  "err_selected cfg d a =
     (case err_key cfg of
        None \<Rightarrow> False
      | Some ek \<Rightarrow>
          list_all (\<lambda>k. column_values ek (cell_records cfg a k d) \<noteq> [])
            (keys_of (col_key cfg) (group_rows (row_key cfg) a d)))"

definition cell_groups :: "config \<Rightarrow> dataframe \<Rightarrow> pyval \<Rightarrow> (pyval \<rightharpoonup> pyval list)" where
  "cell_groups cfg d a =
     map_of (map (\<lambda>k. (k, List.map_filter (\<lambda>r. r (cell_key cfg)) (cell_records cfg a k d)))
               (keys_of (col_key cfg) (group_rows (row_key cfg) a d)))"

text \<open>
  What \<^verbatim>\<open>rows[row_k]\<close> holds for the records of one row group when no aggregation
  fails: the series of the means, and the series of the dispersions as lines 110-120
  choose it.
\<close>

definition row_stats :: "config \<Rightarrow> dataframe \<Rightarrow> series \<times> series" where
  "row_stats cfg row_df =
     (let ks = keys_of (col_key cfg) row_df;
          grp = (\<lambda>k. filter (\<lambda>r. r (col_key cfg) = Some k) row_df);
          fb = fallback_err cfg (map (\<lambda>k. (k, grp k)) ks)
                 (map (\<lambda>k. (k, map_option (\<lambda>x. x * error_scaling cfg)
                                  (sample_std (column_values (cell_key cfg) (grp k))))) ks)
      in (map_of (map (\<lambda>k. (k, mean (column_values (cell_key cfg) (grp k)))) ks),
          (case err_key cfg of
             None \<Rightarrow> fb
           | Some ek \<Rightarrow>
               if list_all (\<lambda>k. column_values ek (grp k) \<noteq> []) ks
               then map_of (map (\<lambda>k. (k, mean (column_values ek (grp k)))) ks)
               else fb)))"

text \<open>
  The frame that reaches line 106: the value column scaled, then the two sentinel
  strings replaced.
\<close>

definition prepared :: "config \<Rightarrow> dataframe \<Rightarrow> py_error + dataframe" where
  "prepared cfg df =
     (case scale_column (cell_key cfg) (value_scaling cfg) df of
        Inl e \<Rightarrow> Inl e
      | Inr scaled \<Rightarrow> Inr (sanitize cfg scaled))"

definition san_cell :: "config \<Rightarrow> pyval \<Rightarrow> pyval" where
  "san_cell cfg v =
     replace_cell ''error'' (error_fill_value cfg)
       (replace_cell ''missing'' (missing_fill_value cfg) v)"

text \<open>A table with three records in one cell, scaled by two.\<close>

definition stats_cfg :: config where
  "stats_cfg = demo_cfg\<lparr>value_scaling := FloatS 2\<rparr>"



text \<open>Tables with an error column \<^verbatim>\<open>e\<close>.\<close>

definition err_cfg :: config where
  "err_cfg = demo_cfg\<lparr>err_key := Some ''e''\<rparr>"


definition nan_frame :: dataframe where
  "nan_frame =
     [[''r'' \<mapsto> Str ''a'', ''c'' \<mapsto> Str ''x'', ''e'' \<mapsto> NaN, ''v'' \<mapsto> Num 1],
      [''r'' \<mapsto> Str ''a'', ''c'' \<mapsto> Str ''x'', ''e'' \<mapsto> Num 2, ''v'' \<mapsto> Num 2],
      [''r'' \<mapsto> Str ''a'', ''c'' \<mapsto> Str ''x'', ''e'' \<mapsto> Num 2, ''v'' \<mapsto> Num 3]]"

definition mixed_frame :: dataframe where
  "mixed_frame =
     [[''r'' \<mapsto> Str ''a'', ''c'' \<mapsto> Str ''x'', ''e'' \<mapsto> NaN, ''v'' \<mapsto> Num 1],
      [''r'' \<mapsto> Str ''a'', ''c'' \<mapsto> Str ''x'', ''e'' \<mapsto> NaN, ''v'' \<mapsto> Num 2],
      [''r'' \<mapsto> Str ''a'', ''c'' \<mapsto> Str ''x'', ''e'' \<mapsto> NaN, ''v'' \<mapsto> Num 3],
      [''r'' \<mapsto> Str ''b'', ''c'' \<mapsto> Str ''x'', ''e'' \<mapsto> Num 1, ''v'' \<mapsto> Num 5],
      [''r'' \<mapsto> Str ''b'', ''c'' \<mapsto> Str ''x'', ''e'' \<mapsto> Num 3, ''v'' \<mapsto> Num 7]]"

text \<open>
  A call with every optional argument at its default, on one record whose value is
  a sentinel string; and the table of one row and one column it would give.
\<close>

definition plain_cfg :: config where
  "plain_cfg = defaults ''c'' ''r'' ''v'' [''x''] [''a''] 7"

definition missing_frame :: dataframe where
  "missing_frame = [[''r'' \<mapsto> Str ''a'', ''c'' \<mapsto> Str ''x'', ''v'' \<mapsto> Str ''missing'']]"

definition error_frame :: dataframe where
  "error_frame = [[''r'' \<mapsto> Str ''a'', ''c'' \<mapsto> Str ''x'', ''v'' \<mapsto> Str ''error'']]"

definition plain_table :: "string \<Rightarrow> string" where
  "plain_table cell =
     bs @ ''begin{tabular}{cc}'' @ nl @ bs @ ''toprule'' @ nl
     @ '' & '' @ bs @ ''textbf{x}'' @ row_sep @ bs @ ''midrule'' @ nl
     @ bs @ ''textbf{a} & '' @ cell
     @ bs @ ''bottomrule'' @ nl @ bs @ ''end{tabular}'' @ nl"

section \<open>Auxiliary facts\<close>

subsection \<open>The row loop\<close>


lemma row_loop_length:
  "row_loop cfg rows i ks = Inr (ls, ds) \<Longrightarrow> length ls = length ks"
proof (induction ks arbitrary: i ls ds)
  case Nil
  then show ?case by simp
next
  case (Cons k ks)
  then show ?case
    by (fastforce split: if_splits sum.splits prod.splits option.splits)
qed

lemma row_loop_Cons_cases:
  assumes "row_loop cfg rows i (k # ks) = Inr (ls, ds)"
  shows "(k = ''hline'' \<and> (\<exists>ls'. row_loop cfg rows 0 ks = Inr (ls', ds) \<and> ls = hline_row # ls'))
       \<or> (absent rows k \<and> (\<exists>ls' ds'. row_loop cfg rows i ks = Inr (ls', ds')
             \<and> ls = blank_row cfg k # ls' \<and> ds = diagnostic k # ds'))
       \<or> (k \<noteq> ''hline'' \<and> (\<exists>y s t ls'. rows (Str k) = Some (y, s)
             \<and> data_row cfg rows k y s = Inr t
             \<and> row_loop cfg rows (i + 1) ks = Inr (ls', ds)
             \<and> ls = colour cfg (i + 1) t # ls'))"
proof (cases "k = ''hline''")
  case True
  then show ?thesis
    using assms by (auto split: sum.splits prod.splits)
next
  case False
  show ?thesis
  proof (cases "rows (Str k)")
    case None
    then show ?thesis
      using assms False by (auto simp: absent_def split: sum.splits prod.splits)
  next
    case (Some p)
    then show ?thesis
      using assms False by (cases p) (auto split: sum.splits prod.splits)
  qed
qed

lemma row_loop_diagnostics:
  "row_loop cfg rows i ks = Inr (ls, ds) \<Longrightarrow> ds = map diagnostic (filter (absent rows) ks)"
proof (induction ks arbitrary: i ls ds)
  case Nil
  then show ?case by simp
next
  case (Cons k ks)
  from row_loop_Cons_cases [OF Cons.prems] show ?case
  proof (elim disjE conjE exE)
    fix ls'
    assume "k = ''hline''" "row_loop cfg rows 0 ks = Inr (ls', ds)"
    then show ?thesis using Cons.IH by (simp add: absent_def)
  next
    fix ls' ds'
    assume "absent rows k" "row_loop cfg rows i ks = Inr (ls', ds')" "ds = diagnostic k # ds'"
    then show ?thesis using Cons.IH by simp
  next
    fix y s t ls'
    assume "rows (Str k) = Some (y, s)" "row_loop cfg rows (i + 1) ks = Inr (ls', ds)"
    then show ?thesis using Cons.IH by (simp add: absent_def)
  qed
qed

lemma row_loop_blank:
  "row_loop cfg rows i ks = Inr (ls, ds) \<Longrightarrow> j < length ks \<Longrightarrow> absent rows (ks ! j)
    \<Longrightarrow> ls ! j = blank_row cfg (ks ! j)"
proof (induction ks arbitrary: i ls ds j)
  case Nil
  then show ?case by simp
next
  case (Cons k ks)
  show ?case
  proof (cases j)
    case 0
    then show ?thesis
      using Cons.prems by (auto simp: absent_def split: if_splits sum.splits prod.splits option.splits)
  next
    case (Suc j')
    then show ?thesis
      using Cons.prems Cons.IH [of _ _ _ j']
      by (auto split: if_splits sum.splits prod.splits option.splits)
  qed
qed

subsection \<open>Substrings and joins\<close>

lemma contains_iff: "contains s t \<longleftrightarrow> (\<exists>p q. t = p @ s @ q)"
proof (induction t)
  case Nil
  then show ?case by auto
next
  case (Cons c cs)
  show ?case
  proof
    assume "contains s (c # cs)"
    then consider "prefix s (c # cs)" | "contains s cs" by auto
    then show "\<exists>p q. c # cs = p @ s @ q"
    proof cases
      case 1
      then obtain q where "c # cs = s @ q" by (auto simp: prefix_def)
      then have "c # cs = [] @ s @ q" by simp
      then show ?thesis by blast
    next
      case 2
      then obtain p q where "cs = p @ s @ q" using Cons.IH by blast
      then have "c # cs = (c # p) @ s @ q" by simp
      then show ?thesis by blast
    qed
  next
    assume "\<exists>p q. c # cs = p @ s @ q"
    then obtain p q where pq: "c # cs = p @ s @ q" by blast
    show "contains s (c # cs)"
    proof (cases p)
      case Nil
      then have "prefix s (c # cs)" using pq by (simp add: prefix_def)
      then show ?thesis by simp
    next
      case (Cons a p')
      then have "cs = p' @ s @ q" using pq by simp
      then have "contains s cs" using Cons.IH by blast
      then show ?thesis by simp
    qed
  qed
qed

lemma contains_append: "contains s t \<Longrightarrow> contains s (a @ t @ b)"
proof -
  assume "contains s t"
  then obtain p q where "t = p @ s @ q" using contains_iff by blast
  then have "a @ t @ b = (a @ p) @ s @ (q @ b)" by simp
  then show ?thesis using contains_iff by blast
qed

lemma join_member: "c \<in> set cells \<Longrightarrow> \<exists>a b. join sep cells = a @ c @ b"
proof (induction sep cells rule: join.induct)
  case (1 sep)
  then show ?case by simp
next
  case (2 sep x)
  then have "join sep [x] = [] @ c @ []" by simp
  then show ?case by blast
next
  case (3 sep x y ys)
  show ?case
  proof (cases "c = x")
    case True
    then have "join sep (x # y # ys) = [] @ c @ (sep @ join sep (y # ys))" by simp
    then show ?thesis by blast
  next
    case False
    then have "c \<in> set (y # ys)" using "3.prems" by simp
    then obtain a b where "join sep (y # ys) = a @ c @ b" using "3.IH" by blast
    then have "join sep (x # y # ys) = (x @ sep @ a) @ c @ b" by simp
    then show ?thesis by blast
  qed
qed

lemma contains_join:
  assumes "contains s c" and "c \<in> set cells"
  shows "contains s (pfx @ join sep cells)"
proof -
  obtain a b where "join sep cells = a @ c @ b" using join_member [OF assms(2)] by blast
  then have "pfx @ join sep cells = (pfx @ a) @ c @ b" by simp
  then show ?thesis using contains_append [OF assms(1)] by metis
qed

lemma join_rows_split:
  "join_rows b (pre @ row_line # post) =
     join_rows True pre @ row_line @ separator b (post = []) row_line @ join_rows b post"
proof (induction pre)
  case Nil
  then show ?case by simp
next
  case (Cons p pre)
  have "separator b False p = separator True (pre = []) p"
    by (simp add: separator_def)
  then show ?case using Cons.IH by simp
qed

lemma separator_hline:
  "contains ''hline'' row_line \<Longrightarrow>
     separator b is_last row_line = (if is_last \<and> \<not> b then [] else nl)"
  by (simp add: separator_def)

lemma hline_row_contains: "contains ''hline'' hline_row"
  by (simp add: hline_row_def bs_def)

lemma row_loop_succeeds_iff:
  "(\<exists>ls ds. row_loop cfg rows i ks = Inr (ls, ds)) \<longleftrightarrow> list_all (row_ok cfg rows) ks"
proof (induction ks arbitrary: i)
  case Nil
  then show ?case by simp
next
  case (Cons k ks)
  show ?case
  proof (cases "k = ''hline''")
    case True
    then have "row_ok cfg rows k" by (simp add: row_ok_def)
    then show ?thesis
      using True Cons.IH [of 0] by (auto split: sum.splits prod.splits)
  next
    case False
    show ?thesis
    proof (cases "rows (Str k)")
      case None
      then have "row_ok cfg rows k" by (simp add: row_ok_def)
      then show ?thesis
        using None False Cons.IH [of i] by (auto split: sum.splits prod.splits)
    next
      case (Some p)
      obtain y s where p: "p = (y, s)" by (cases p)
      show ?thesis
      proof (cases "data_row cfg rows k y s")
        case (Inl e)
        then have "\<not> row_ok cfg rows k" using False Some p by (simp add: row_ok_def)
        then show ?thesis using False Some p Inl by simp
      next
        case (Inr t)
        then have "row_ok cfg rows k" using False Some p by (simp add: row_ok_def)
        then show ?thesis
          using Inr False Some p Cons.IH [of "i + 1"]
          by (auto split: sum.splits prod.splits)
      qed
    qed
  qed
qed

subsection \<open>The console and the outcome\<close>

lemma render_console:
  assumes "render cfg d = Inr out"
  shows "\<exists>rows body.
           aggregate cfg d = Inr rows
         \<and> row_loop cfg rows 0 (row_order cfg)
             = Inr (body, map diagnostic (filter (absent rows) (row_order cfg)))
         \<and> console out = map diagnostic (filter (absent rows) (row_order cfg))
             @ [case write_to cfg of None \<Rightarrow> ret_s out | Some path \<Rightarrow> ''Wrote result to '' @ path]"
proof -
  obtain rows where rows: "aggregate cfg d = Inr rows"
    using assms by (auto simp: render_def split: sum.splits)
  obtain body ds where loop: "row_loop cfg rows 0 (row_order cfg) = Inr (body, ds)"
    using assms rows by (auto simp: render_def split: sum.splits prod.splits)
  have ds: "ds = map diagnostic (filter (absent rows) (row_order cfg))"
    using row_loop_diagnostics [OF loop] .
  obtain lay where lay: "choose_layout cfg body = Inr lay"
    using assms rows loop by (auto simp: render_def split: sum.splits)
  have "out = emit cfg ds (assemble cfg (header_row cfg) lay)"
    using assms rows loop lay by (simp add: render_def)
  then have "console out = ds
      @ [case write_to cfg of None \<Rightarrow> ret_s out | Some path \<Rightarrow> ''Wrote result to '' @ path]"
    by (simp add: emit_def split: option.splits)
  then show ?thesis using rows loop ds by simp
qed

lemma plot_table_Inr:
  assumes "plot_table cfg df = (df', Inr out)"
  shows "render cfg (sanitize cfg df') = Inr out"
  using assms by (auto simp: plot_table_def split: sum.splits)

lemma absent_row_ok: "absent rows k \<Longrightarrow> row_ok cfg rows k"
  by (simp add: absent_def row_ok_def)




subsection \<open>Aggregation without failure\<close>

lemma traverse_map:
  "(\<And>x. x \<in> set xs \<Longrightarrow> f x = Inr (g x)) \<Longrightarrow> traverse f xs = Inr (map g xs)"
  by (induction xs) simp_all

lemma has_col_filter: "has_col c d \<Longrightarrow> has_col c (filter P d)"
  by (simp add: has_col_def list_all_iff)

lemma no_str_filter: "no_str c d \<Longrightarrow> no_str c (filter P d)"
  by (simp add: no_str_def list_all_iff)

lemma no_str_has_col: "no_str c d \<Longrightarrow> has_col c d"
  by (auto simp: no_str_def has_col_def list_all_iff split: option.splits)

lemma get_column_Inr:
  assumes "has_col c d"
  shows "get_column c d = Inr (List.map_filter (\<lambda>r. r c) d)"
proof -
  have "traverse (\<lambda>r. case r c of None \<Rightarrow> Inl KeyError | Some v \<Rightarrow> Inr v) d
      = Inr (map (\<lambda>r. the (r c)) d)"
    using assms by (intro traverse_map) (auto simp: has_col_def list_all_iff)
  moreover have "map (\<lambda>r. the (r c)) d = List.map_filter (\<lambda>r. r c) d"
    using assms by (induction d) (auto simp: has_col_def List.map_filter_simps)
  ultimately show ?thesis by (simp add: get_column_def)
qed

lemma group_keys_Inr: "has_col c d \<Longrightarrow> group_keys c d = Inr (keys_of c d)"
  by (simp add: group_keys_def get_column_Inr keys_of_def)

lemma numbers_Inr:
  assumes "no_str c g"
  shows "numbers (List.map_filter (\<lambda>r. r c) g) = Inr (column_values c g)"
proof -
  have "\<not> list_ex is_str (List.map_filter (\<lambda>r. r c) g)"
    using assms
    by (induction g) (auto simp: no_str_def List.map_filter_simps split: option.splits)
  then show ?thesis by (simp add: numbers_def column_values_def)
qed

lemma agg_Inr:
  assumes "no_str c row_df"
  shows "agg f c row_df (map (\<lambda>k. (k, filter (P k) row_df)) ks)
      = Inr (map (\<lambda>k. (k, f (column_values c (filter (P k) row_df)))) ks)"
proof -
  have col: "get_column c row_df = Inr (List.map_filter (\<lambda>r. r c) row_df)"
    using assms by (simp add: get_column_Inr no_str_has_col)
  have "traverse
          (\<lambda>(k, g). case numbers (List.map_filter (\<lambda>r. r c) g) of
                       Inl e \<Rightarrow> Inl e
                     | Inr xs \<Rightarrow> Inr (k, f xs))
          (map (\<lambda>k. (k, filter (P k) row_df)) ks)
      = Inr (map (\<lambda>(k, g). (k, f (column_values c g))) (map (\<lambda>k. (k, filter (P k) row_df)) ks))"
    using assms by (intro traverse_map) (auto simp: numbers_Inr no_str_filter)
  then show ?thesis by (simp add: agg_def col comp_def)
qed

lemma map_of_keyed:
  "map_of (map (\<lambda>k. (k, f k)) ks) a = (if a \<in> set ks then Some (f a) else None)"
  by (induction ks) auto

lemma hasnans_keyed:
  "hasnans (map (\<lambda>k. (k, mean (f k))) ks) \<longleftrightarrow> \<not> list_all (\<lambda>k. f k \<noteq> []) ks"
  by (induction ks) (auto simp: hasnans_def mean_def)

lemma col_groups_Inr:
  "has_col (col_key cfg) row_df \<Longrightarrow>
     col_groups cfg row_df
       = Inr (map (\<lambda>k. (k, filter (\<lambda>r. r (col_key cfg) = Some k) row_df))
                (keys_of (col_key cfg) row_df))"
  by (simp add: col_groups_def group_keys_Inr group_rows_def)

lemma select_err_Inr:
  assumes "case err_key cfg of None \<Rightarrow> True | Some ek \<Rightarrow> no_str ek row_df"
  shows "select_err cfg row_df (map (\<lambda>k. (k, filter (P k) row_df)) ks)
      = Inr (case err_key cfg of
               None \<Rightarrow> None
             | Some ek \<Rightarrow>
                 if list_all (\<lambda>k. column_values ek (filter (P k) row_df) \<noteq> []) ks
                 then Some (map (\<lambda>k. (k, mean (column_values ek (filter (P k) row_df)))) ks)
                 else None)"
proof (cases "err_key cfg")
  case None
  then show ?thesis by (simp add: select_err_def)
next
  case (Some ek)
  then have "no_str ek row_df" using assms by simp
  then show ?thesis
    using Some by (simp add: select_err_def agg_Inr hasnans_keyed)
qed

lemma row_group_Inr:
  assumes "has_col (col_key cfg) row_df"
    and "no_str (cell_key cfg) row_df"
    and "case err_key cfg of None \<Rightarrow> True | Some ek \<Rightarrow> no_str ek row_df"
  shows "row_group cfg row_df = Inr (row_stats cfg row_df)"
proof (cases "err_key cfg")
  case None
  then show ?thesis
    using assms
    by (simp add: row_group_def col_groups_Inr agg_Inr select_err_Inr row_stats_def
        scaled_std_def comp_def Let_def)
next
  case (Some ek)
  then show ?thesis
    using assms
    by (simp add: row_group_def col_groups_Inr agg_Inr select_err_Inr row_stats_def
        scaled_std_def comp_def Let_def)
qed

lemma aggregate_Inr:
  assumes "has_col (row_key cfg) d"
    and "has_col (col_key cfg) d"
    and "no_str (cell_key cfg) d"
    and "case err_key cfg of None \<Rightarrow> True | Some ek \<Rightarrow> no_str ek d"
  shows "aggregate cfg d
      = Inr (map_of (map (\<lambda>rk. (rk, row_stats cfg (group_rows (row_key cfg) rk d)))
                      (keys_of (row_key cfg) d)))"
proof -
  have grp: "row_group cfg (group_rows (row_key cfg) rk d)
      = Inr (row_stats cfg (group_rows (row_key cfg) rk d))" for rk
    using assms
    by (intro row_group_Inr)
      (auto simp: group_rows_def has_col_filter no_str_filter split: option.splits)
  have "traverse
          (\<lambda>rk. case row_group cfg (group_rows (row_key cfg) rk d) of
                   Inl e \<Rightarrow> Inl e
                 | Inr p \<Rightarrow> Inr (rk, p))
          (keys_of (row_key cfg) d)
      = Inr (map (\<lambda>rk. (rk, row_stats cfg (group_rows (row_key cfg) rk d)))
               (keys_of (row_key cfg) d))"
    by (intro traverse_map) (simp add: grp)
  then show ?thesis
    using assms by (simp add: aggregate_def group_keys_Inr)
qed

lemma keys_of_member:
  "has_col c d \<Longrightarrow> a \<in> set (keys_of c d) \<longleftrightarrow> a \<noteq> NaN \<and> (\<exists>r\<in>set d. r c = Some a)"
  by (induction d) (auto simp: keys_of_def has_col_def List.map_filter_simps split: option.splits)

lemma cell_records_groups:
  "filter (\<lambda>r. r (col_key cfg) = Some b) (group_rows (row_key cfg) a d) = cell_records cfg a b d"
  by (simp add: group_rows_def cell_records_def)

lemma present_iff:
  assumes "has_col (row_key cfg) d" and "has_col (col_key cfg) d"
  shows "a \<in> set (keys_of (row_key cfg) d)
       \<and> b \<in> set (keys_of (col_key cfg) (group_rows (row_key cfg) a d))
     \<longleftrightarrow> a \<noteq> NaN \<and> b \<noteq> NaN \<and> cell_records cfg a b d \<noteq> []"
proof -
  have "has_col (col_key cfg) (group_rows (row_key cfg) a d)"
    using assms(2) by (simp add: group_rows_def has_col_filter)
  then have "b \<in> set (keys_of (col_key cfg) (group_rows (row_key cfg) a d))
      \<longleftrightarrow> b \<noteq> NaN \<and> cell_records cfg a b d \<noteq> []"
    by (auto simp: keys_of_member group_rows_def cell_records_def filter_empty_conv)
  moreover have "cell_records cfg a b d \<noteq> [] \<Longrightarrow> \<exists>r\<in>set d. r (row_key cfg) = Some a"
    by (auto simp: cell_records_def filter_empty_conv)
  ultimately show ?thesis
    using assms(1) by (auto simp: keys_of_member)
qed


lemma dispersion_Inr:
  assumes "has_col (row_key cfg) d"
    and "has_col (col_key cfg) d"
    and "no_str (cell_key cfg) d"
    and "case err_key cfg of None \<Rightarrow> True | Some ek \<Rightarrow> no_str ek d"
    and "a \<noteq> NaN" and "b \<noteq> NaN" and "cell_records cfg a b d \<noteq> []"
  shows "dispersion cfg d a b
      = Inr (if err_selected cfg d a
             then Some (mean (column_values (the (err_key cfg)) (cell_records cfg a b d)))
             else (case compute_err_fn cfg of
                     None \<Rightarrow>
                       Some (map_option (\<lambda>x. x * error_scaling cfg)
                               (sample_std (column_values (cell_key cfg) (cell_records cfg a b d))))
                   | Some f \<Rightarrow> f (cell_groups cfg d a) b))"
proof -
  have mem: "a \<in> set (keys_of (row_key cfg) d)"
    "b \<in> set (keys_of (col_key cfg) (group_rows (row_key cfg) a d))"
    using present_iff [OF assms(1,2), of a b] assms(5-7) by simp_all
  have d: "dispersion cfg d a b = Inr (snd (row_stats cfg (group_rows (row_key cfg) a d)) b)"
    using mem(1) by (simp add: dispersion_def aggregate_Inr [OF assms(1-4)] map_of_keyed split: prod.splits)
  show ?thesis
  proof (cases "err_selected cfg d a")
    case True
    then obtain ek where ek: "err_key cfg = Some ek"
      by (auto simp: err_selected_def split: option.splits)
    show ?thesis
      using True mem(2) ek
      by (simp add: d row_stats_def Let_def cell_records_groups err_selected_def map_of_keyed)
  next
    case False
    show ?thesis
    proof (cases "compute_err_fn cfg")
      case None
      then show ?thesis
        using False mem(2)
        by (auto simp: d row_stats_def Let_def cell_records_groups err_selected_def
            fallback_err_def map_of_keyed split: option.splits)
    next
      case (Some f)
      then show ?thesis
        using False
        by (auto simp: d row_stats_def Let_def cell_records_groups err_selected_def
            fallback_err_def cell_groups_def comp_def split: option.splits)
    qed
  qed
qed

subsection \<open>Scaling and sanitizing\<close>

lemma traverse_Inr_iff:
  "traverse f xs = Inr ys \<longleftrightarrow> list_all2 (\<lambda>x y. f x = Inr y) xs ys"
proof (induction xs arbitrary: ys)
  case Nil
  then show ?case by auto
next
  case (Cons x xs)
  show ?case
    by (cases ys) (auto split: sum.splits simp: Cons.IH [symmetric])
qed

lemma scale_column_Inr:
  assumes "scale_column c s df = Inr scaled"
  shows "list_all2 (\<lambda>r r'. \<exists>v w. r c = Some v \<and> mul_cell s v = Inr w \<and> r' = r(c \<mapsto> w)) df scaled"
proof -
  obtain vs where vs: "get_column c df = Inr vs"
    using assms by (auto simp: scale_column_def split: sum.splits)
  obtain ws where ws: "traverse (mul_cell s) vs = Inr ws"
    and scaled: "scaled = map2 (\<lambda>r w. r(c \<mapsto> w)) df ws"
    using assms vs by (auto simp: scale_column_def split: sum.splits)
  have 1: "list_all2 (\<lambda>r v. r c = Some v) df vs"
    using vs by (auto simp: get_column_def traverse_Inr_iff list_all2_conv_all_nth split: option.splits)
  have 2: "list_all2 (\<lambda>v w. mul_cell s v = Inr w) vs ws"
    using ws by (simp add: traverse_Inr_iff)
  show ?thesis
    using 1 2 unfolding scaled
    by (auto simp: list_all2_conv_all_nth)
qed


lemma plot_table_prepared:
  "prepared cfg df = Inr d \<Longrightarrow> snd (plot_table cfg df) = render cfg d"
  by (auto simp: prepared_def plot_table_def split: sum.splits)

lemma sanitize_map:
  "sanitize cfg d = map (\<lambda>r c. map_option (san_cell cfg) (r c)) d"
  by (simp add: sanitize_def replace_df_def san_cell_def [abs_def] option.map_comp comp_def)

lemma san_cell_simps:
  "san_cell cfg (Num x) = Num x"
  "san_cell cfg NaN = NaN"
  "is_str (san_cell cfg v) \<Longrightarrow> is_str v"
  by (auto simp: san_cell_def replace_cell_def split: if_splits)

lemma has_col_sanitize: "has_col c d \<Longrightarrow> has_col c (sanitize cfg d)"
  by (simp add: has_col_def sanitize_map list_all_iff)

lemma no_str_sanitize: "no_str c d \<Longrightarrow> no_str c (sanitize cfg d)"
  by (auto simp: no_str_def sanitize_map list_all_iff san_cell_simps split: option.splits)

lemma sanitize_numeric:
  "\<forall>r\<in>set d. \<exists>x. r c = Some (Num x) \<Longrightarrow> \<forall>r\<in>set (sanitize cfg d). \<exists>x. r c = Some (Num x)"
  by (auto simp: sanitize_map san_cell_simps)



lemma values_unique:
  "map (\<lambda>r. r c) g = map (\<lambda>x. Some (Num x)) xs \<Longrightarrow> column_values c g = xs"
proof (induction g arbitrary: xs)
  case Nil
  then show ?case by (simp add: column_values_def List.map_filter_simps)
next
  case (Cons r g)
  then obtain x xs' where xs: "xs = x # xs'" by (cases xs) auto
  then have "r c = Some (Num x)" and "map (\<lambda>r. r c) g = map (\<lambda>x. Some (Num x)) xs'"
    using Cons.prems by simp_all
  then show ?case
    using Cons.IH [of xs'] xs by (simp add: column_values_def List.map_filter_simps)
qed




lemma mul_cell_no_str: "\<not> is_str v \<Longrightarrow> \<exists>w. mul_cell s v = Inr w \<and> \<not> is_str w"
  by (cases v) auto

lemma mul_cell_Num: "mul_cell s (Num x) = Inr w \<Longrightarrow> w = Num (x * scale_factor s)"
  by auto

lemma scale_column_total:
  assumes "no_str c df"
  shows "\<exists>scaled. scale_column c s df = Inr scaled"
proof -
  have col: "get_column c df = Inr (List.map_filter (\<lambda>r. r c) df)"
    using assms by (simp add: get_column_Inr no_str_has_col)
  have "\<forall>v\<in>set (List.map_filter (\<lambda>r. r c) df). \<not> is_str v"
    using assms
    by (induction df) (auto simp: no_str_def List.map_filter_simps split: option.splits)
  then have "traverse (mul_cell s) (List.map_filter (\<lambda>r. r c) df)
      = Inr (map (\<lambda>v. case v of Num x \<Rightarrow> Num (x * scale_factor s) | _ \<Rightarrow> v)
               (List.map_filter (\<lambda>r. r c) df))"
    by (intro traverse_map) (auto split: pyval.splits)
  then show ?thesis by (simp add: scale_column_def col)
qed

lemma list_all2_right:
  "list_all2 R xs ys \<Longrightarrow> y \<in> set ys \<Longrightarrow> \<exists>x\<in>set xs. R x y"
  by (induction rule: list_all2_induct) auto

lemma scaled_row:
  assumes "r c = Some v" and "\<not> is_str v" and "mul_cell s v = Inr w" and "r' = r(c \<mapsto> w)"
  shows "r k \<noteq> None \<Longrightarrow> r' k \<noteq> None"
    and "(case r k of None \<Rightarrow> False | Some u \<Rightarrow> \<not> is_str u)
          \<Longrightarrow> (case r' k of None \<Rightarrow> False | Some u \<Rightarrow> \<not> is_str u)"
    and "\<exists>x. r k = Some (Num x) \<Longrightarrow> \<exists>x. r' k = Some (Num x)"
proof -
  have nw: "\<not> is_str w"
    using mul_cell_no_str [OF assms(2), of s] assms(3) by simp
  show "r k \<noteq> None \<Longrightarrow> r' k \<noteq> None"
    using assms(4) by simp
  show "(case r k of None \<Rightarrow> False | Some u \<Rightarrow> \<not> is_str u)
          \<Longrightarrow> (case r' k of None \<Rightarrow> False | Some u \<Rightarrow> \<not> is_str u)"
    using assms(4) nw by simp
  show "\<exists>x. r k = Some (Num x) \<Longrightarrow> \<exists>x. r' k = Some (Num x)"
  proof (cases "k = c")
    case True
    assume "\<exists>x. r k = Some (Num x)"
    then obtain x where "v = Num x" using assms(1) True by auto
    then have "w = Num (x * scale_factor s)" using assms(3) by simp
    then show ?thesis using assms(4) True by simp
  next
    case False
    assume "\<exists>x. r k = Some (Num x)"
    then show ?thesis using assms(4) False by simp
  qed
qed

lemma scaled_source:
  assumes "list_all2 (\<lambda>r r'. \<exists>v w. r c = Some v \<and> mul_cell s v = Inr w \<and> r' = r(c \<mapsto> w)) df scaled"
    and "no_str c df"
    and "r' \<in> set scaled"
  shows "\<exists>r v w. r \<in> set df \<and> r c = Some v \<and> \<not> is_str v \<and> mul_cell s v = Inr w
      \<and> r' = r(c \<mapsto> w)"
proof -
  from list_all2_right [OF assms(1) assms(3)]
  obtain r where r: "r \<in> set df" and ex: "\<exists>v w. r c = Some v \<and> mul_cell s v = Inr w \<and> r' = r(c \<mapsto> w)"
    by (rule bexE)
  from ex obtain v w where v: "r c = Some v" and w: "mul_cell s v = Inr w" and r': "r' = r(c \<mapsto> w)"
    by (elim exE conjE)
  have "case r c of None \<Rightarrow> False | Some u \<Rightarrow> \<not> is_str u"
    using assms(2) r by (simp add: no_str_def list_all_iff)
  then have "\<not> is_str v"
    by (simp add: v)
  then show ?thesis using r v w r' by (intro exI conjI)
qed

lemma scaled_has_col_gen:
  assumes "list_all2 (\<lambda>r r'. \<exists>v w. r c = Some v \<and> mul_cell s v = Inr w \<and> r' = r(c \<mapsto> w)) df scaled"
    and "no_str c df"
    and h: "has_col k df"
  shows "has_col k scaled"
  unfolding has_col_def list_all_iff
proof
  fix r' assume "r' \<in> set scaled"
  from scaled_source [OF assms(1,2) this]
  obtain r v w where r: "r \<in> set df" and rest: "r c = Some v" "\<not> is_str v"
    "mul_cell s v = Inr w" "r' = r(c \<mapsto> w)"
    by (elim exE conjE)
  have "r k \<noteq> None" using h r by (simp add: has_col_def list_all_iff)
  then show "r' k \<noteq> None" by (rule scaled_row(1) [OF rest])
qed

lemma scaled_no_str_gen:
  assumes "list_all2 (\<lambda>r r'. \<exists>v w. r c = Some v \<and> mul_cell s v = Inr w \<and> r' = r(c \<mapsto> w)) df scaled"
    and "no_str c df"
    and h: "no_str k df"
  shows "no_str k scaled"
  unfolding no_str_def list_all_iff
proof
  fix r' assume "r' \<in> set scaled"
  from scaled_source [OF assms(1,2) this]
  obtain r v w where r: "r \<in> set df" and rest: "r c = Some v" "\<not> is_str v"
    "mul_cell s v = Inr w" "r' = r(c \<mapsto> w)"
    by (elim exE conjE)
  have "case r k of None \<Rightarrow> False | Some u \<Rightarrow> \<not> is_str u"
    using h r by (simp add: no_str_def list_all_iff)
  then show "case r' k of None \<Rightarrow> False | Some u \<Rightarrow> \<not> is_str u"
    by (rule scaled_row(2) [OF rest])
qed

lemma scaled_numeric_gen:
  assumes "list_all2 (\<lambda>r r'. \<exists>v w. r c = Some v \<and> mul_cell s v = Inr w \<and> r' = r(c \<mapsto> w)) df scaled"
    and "no_str c df"
    and h: "\<forall>r\<in>set df. \<exists>x. r k = Some (Num x)"
  shows "\<forall>r\<in>set scaled. \<exists>x. r k = Some (Num x)"
proof
  fix r' assume "r' \<in> set scaled"
  from scaled_source [OF assms(1,2) this]
  obtain r v w where r: "r \<in> set df" and rest: "r c = Some v" "\<not> is_str v"
    "mul_cell s v = Inr w" "r' = r(c \<mapsto> w)"
    by (elim exE conjE)
  have "\<exists>x. r k = Some (Num x)" using h r by simp
  then show "\<exists>x. r' k = Some (Num x)" by (rule scaled_row(3) [OF rest])
qed

lemma prepared_total:
  assumes "no_str (cell_key cfg) df"
  shows "\<exists>d. prepared cfg df = Inr d
      \<and> (\<forall>k. has_col k df \<longrightarrow> has_col k d)
      \<and> (\<forall>k. no_str k df \<longrightarrow> no_str k d)
      \<and> (\<forall>k. (\<forall>r\<in>set df. \<exists>x. r k = Some (Num x)) \<longrightarrow> (\<forall>r\<in>set d. \<exists>x. r k = Some (Num x)))"
proof -
  from scale_column_total [OF assms]
  obtain scaled where sc: "scale_column (cell_key cfg) (value_scaling cfg) df = Inr scaled"
    by (rule exE)
  note rel = scale_column_Inr [OF sc]
  have p: "prepared cfg df = Inr (sanitize cfg scaled)"
    by (simp add: prepared_def sc)
  have 1: "has_col k (sanitize cfg scaled)" if "has_col k df" for k
    by (rule has_col_sanitize [OF scaled_has_col_gen [OF rel assms that]])
  have 2: "no_str k (sanitize cfg scaled)" if "no_str k df" for k
    by (rule no_str_sanitize [OF scaled_no_str_gen [OF rel assms that]])
  have 3: "\<forall>r\<in>set (sanitize cfg scaled). \<exists>x. r k = Some (Num x)"
    if "\<forall>r\<in>set df. \<exists>x. r k = Some (Num x)" for k
    by (rule sanitize_numeric [OF scaled_numeric_gen [OF rel assms that]])
  show ?thesis
    using p 1 2 3 by (intro exI [of _ "sanitize cfg scaled"] conjI allI impI)
qed

lemma err_selected_iff:
  assumes "has_col (col_key cfg) d" and "err_key cfg = Some ek"
  shows "err_selected cfg d a \<longleftrightarrow>
     (\<forall>k. k \<noteq> NaN \<and> cell_records cfg a k d \<noteq> [] \<longrightarrow> column_values ek (cell_records cfg a k d) \<noteq> [])"
proof -
  have hc: "has_col (col_key cfg) (group_rows (row_key cfg) a d)"
    using assms(1) by (simp add: group_rows_def has_col_filter)
  have "k \<in> set (keys_of (col_key cfg) (group_rows (row_key cfg) a d))
      \<longleftrightarrow> k \<noteq> NaN \<and> cell_records cfg a k d \<noteq> []" for k
    using hc by (auto simp: keys_of_member group_rows_def cell_records_def filter_empty_conv)
  then show ?thesis
    using assms(2) by (auto simp: err_selected_def list_all_iff)
qed

subsection \<open>What line 95 does to the frame of the caller\<close>

lemma mul_cell_one:
  assumes "scale_factor s = 1" and "mul_cell s v = Inr w"
  shows "w = v"
proof (cases v)
  case (Num x)
  then show ?thesis using assms by simp
next
  case (Str t)
  show ?thesis
  proof (cases s)
    case (IntS n)
    then have "n = 1" using assms(1) by simp
    then show ?thesis using assms(2) Str IntS by simp
  next
    case (FloatS x)
    then show ?thesis using assms(2) Str by simp
  qed
next
  case NaN
  then show ?thesis using assms by simp
qed

lemma scale_one_unchanged:
  assumes "scale_factor (value_scaling cfg) = 1"
  shows "fst (plot_table cfg df) = df"
proof (cases "scale_column (cell_key cfg) (value_scaling cfg) df")
  case (Inl e)
  then show ?thesis by (simp add: plot_table_def)
next
  case (Inr scaled)
  have "list_all2 (\<lambda>r r'. r' = r) df scaled"
  proof (rule list_all2_mono [OF scale_column_Inr [OF Inr]])
    fix r r'
    assume "\<exists>v w. r (cell_key cfg) = Some v \<and> mul_cell (value_scaling cfg) v = Inr w
        \<and> r' = r(cell_key cfg \<mapsto> w)"
    then obtain v w where v: "r (cell_key cfg) = Some v"
      and w: "mul_cell (value_scaling cfg) v = Inr w" and r': "r' = r(cell_key cfg \<mapsto> w)"
      by (elim exE conjE)
    have "w = v" by (rule mul_cell_one [OF assms w])
    then show "r' = r" using v r' by (simp add: fun_upd_idem)
  qed
  then have "scaled = df"
    by (induction rule: list_all2_induct) simp_all
  then show ?thesis using Inr by (simp add: plot_table_def)
qed


subsection \<open>The demonstration table, evaluated\<close>

lemma demo_cfg_fields:
  "col_key demo_cfg = ''c''"
  "row_key demo_cfg = ''r''"
  "cell_key demo_cfg = ''v''"
  "col_order demo_cfg = [''x'']"
  "row_order demo_cfg = [''a'', ''zz'', ''hline'', ''a'']"
  "renames demo_cfg = Map.empty"
  "error_scaling demo_cfg = 1"
  "n_decimals demo_cfg = 2"
  "missing_fill_value demo_cfg = 7"
  "error_fill_value demo_cfg = 3444 / 10000"
  "get_row_highlights demo_cfg = None"
  "get_col_highlights demo_cfg = None"
  "make_col_header demo_cfg = None"
  "x_label demo_cfg = []"
  "y_label demo_cfg = []"
  "skip_toprule demo_cfg = False"
  "include_err demo_cfg"
  "write_to demo_cfg = None"
  "err_key demo_cfg = None"
  "add_tabular demo_cfg"
  "add_botrule demo_cfg = False"
  "name_bold_fn demo_cfg = None"
  "show_row_labels demo_cfg"
  "show_col_labels demo_cfg"
  "compute_err_fn demo_cfg = None"
  "value_scaling demo_cfg = FloatS 1"
  "midrule_formatting demo_cfg = bs @ ''midrule'' @ nl"
  "botrule_formatting demo_cfg = bs @ ''bottomrule''"
  "text_columns demo_cfg = Map.empty"
  "alternating_color_rows demo_cfg"
  "custom_cell_format_fn demo_cfg = None"
  by (simp_all add: demo_cfg_def defaults_def)

lemma fmt_float_one: "fmt_float 2 (Some 1) = ''1.00''"
  by (simp add: round_half_even_def str_nat.simps digit_def pad_zeros_def)

lemma demo_data_row:
  "data_row demo_cfg demo_rows ''a'' [Str ''x'' \<mapsto> Some 1] [Str ''x'' \<mapsto> None]
     = Inr (bs @ ''textbf{a} &  1.00 '')"
  by (simp add: data_row_def demo_cfg_fields cell_text_def select_cols_def number_text_def
      err_text_def selected_def row_label_def display_def clean_text_def replace_char_def
      textbf_def col_sep_def fmt_float_one del: fmt_float.simps)

lemma demo_scale: "scale_column ''v'' (FloatS 1) demo_frame = Inr demo_frame"
  by (simp add: scale_column_def get_column_def demo_frame_def)

lemma demo_aggregate: "aggregate demo_cfg (sanitize demo_cfg demo_frame) = Inr demo_rows"
  by (simp add: demo_cfg_fields demo_frame_def sanitize_def replace_df_def replace_cell_def
      aggregate_def group_keys_def get_column_def group_rows_def row_group_def col_groups_def
      agg_def numbers_def List.map_filter_def mean_def sample_std_def select_err_def
      fallback_err_def scaled_std_def demo_rows_def)

lemma demo_row_loop:
  "row_loop demo_cfg demo_rows 0 [''a'', ''zz'', ''hline'', ''a'']
     = Inr ([bs @ ''textbf{a} &  1.00 '', bs @ ''textbf{zz} & '', bs @ ''hline'',
             bs @ ''textbf{a} &  1.00 ''], [''Could not find  zz''])"
  by (simp add: demo_rows_def demo_data_row [unfolded demo_rows_def] colour_def demo_cfg_fields
       blank_row_def row_label_def display_def clean_text_def replace_char_def
      textbf_def col_sep_def diagnostic_def hline_row_def)

lemma demo_plot:
  "plot_table demo_cfg demo_frame =
     (demo_frame,
      Inr \<lparr>ret_s = demo_table, console = [''Could not find  zz'', demo_table], written = None\<rparr>)"
proof -
  have "render demo_cfg (sanitize demo_cfg demo_frame) =
      Inr \<lparr>ret_s = demo_table, console = [''Could not find  zz'', demo_table], written = None\<rparr>"
    by (simp add: render_def demo_aggregate demo_row_loop [unfolded demo_cfg_fields(5) [symmetric]]
        choose_layout_def demo_cfg_fields(4,6-) emit_def assemble_def header_row_def
        col_header_def n_columns_def x_label_row_def display_def clean_text_def replace_char_def
        textbf_def col_sep_def separator_def row_sep_def bs_def nl_def demo_table_def table_of_def
        del: row_loop.simps)
  then show ?thesis
    by (simp add: plot_table_def demo_cfg_fields demo_scale)
qed

lemma stats_cfg_fields:
  "col_key stats_cfg = ''c''"
  "row_key stats_cfg = ''r''"
  "cell_key stats_cfg = ''v''"
  "error_scaling stats_cfg = 1"
  "missing_fill_value stats_cfg = 7"
  "error_fill_value stats_cfg = 3444 / 10000"
  "err_key stats_cfg = None"
  "compute_err_fn stats_cfg = None"
  "value_scaling stats_cfg = FloatS 2"
  "col_order stats_cfg = [''x'']"
  "row_order stats_cfg = [''a'', ''zz'', ''hline'', ''a'']"
  "renames stats_cfg = Map.empty"
  "n_decimals stats_cfg = 2"
  "get_row_highlights stats_cfg = None"
  "get_col_highlights stats_cfg = None"
  "make_col_header stats_cfg = None"
  "x_label stats_cfg = []"
  "y_label stats_cfg = []"
  "skip_toprule stats_cfg = False"
  "include_err stats_cfg"
  "write_to stats_cfg = None"
  "add_tabular stats_cfg"
  "add_botrule stats_cfg = False"
  "name_bold_fn stats_cfg = None"
  "show_row_labels stats_cfg"
  "show_col_labels stats_cfg"
  "midrule_formatting stats_cfg = bs @ ''midrule'' @ nl"
  "botrule_formatting stats_cfg = bs @ ''bottomrule''"
  "text_columns stats_cfg = Map.empty"
  "alternating_color_rows stats_cfg"
  "custom_cell_format_fn stats_cfg = None"
  by (simp_all add: stats_cfg_def demo_cfg_def defaults_def)

subsection \<open>The tables with an error column, evaluated\<close>

lemmas aggregate_eval =
  dispersion_def central_def aggregate_def group_keys_def get_column_def group_rows_def
  row_group_def col_groups_def agg_def numbers_def List.map_filter_def mean_def sample_std_def
  select_err_def fallback_err_def scaled_std_def hasnans_def

lemmas frame_eval =
  sanitize_map san_cell_def replace_cell_def cell_records_def column_values_def
  List.map_filter_def

lemma err_cfg_fields:
  "col_key err_cfg = ''c''"
  "row_key err_cfg = ''r''"
  "cell_key err_cfg = ''v''"
  "error_scaling err_cfg = 1"
  "missing_fill_value err_cfg = 7"
  "error_fill_value err_cfg = 3444 / 10000"
  "err_key err_cfg = Some ''e''"
  "compute_err_fn err_cfg = None"
  "value_scaling err_cfg = FloatS 1"
  by (simp_all add: err_cfg_def demo_cfg_def defaults_def)


lemma nan_frame_prepared: "prepared err_cfg nan_frame = Inr (sanitize err_cfg nan_frame)"
  by (simp add: prepared_def scale_column_def get_column_def err_cfg_fields nan_frame_def)

lemma mixed_frame_prepared: "prepared err_cfg mixed_frame = Inr (sanitize err_cfg mixed_frame)"
  by (simp add: prepared_def scale_column_def get_column_def err_cfg_fields mixed_frame_def)

subsection \<open>Whole calls, evaluated\<close>

lemmas row_eval =
  data_row_def cell_text_def select_cols_def number_text_def err_text_def selected_def
  row_label_def colour_def blank_row_def diagnostic_def hline_row_def display_def
  clean_text_def replace_char_def textbf_def col_sep_def

lemmas render_eval =
  render_def choose_layout_def emit_def assemble_def header_row_def col_header_def
  n_columns_def x_label_row_def display_def clean_text_def replace_char_def textbf_def
  col_sep_def separator_def row_sep_def bs_def nl_def

lemma fmt_float_two: "fmt_float 2 (Some 2) = ''2.00''"
  by (simp add: round_half_even_def str_nat.simps digit_def pad_zeros_def)

lemma fmt_float_four: "fmt_float 2 (Some 4) = ''4.00''"
  by (simp add: round_half_even_def str_nat.simps digit_def pad_zeros_def)

lemma stats_plot:
  assumes "w \<noteq> 14" and "w \<noteq> 3444 / 10000" and "w = v * 2"
    and fm: "fmt_float 2 (Some w) = num" and nh: "\<not> contains ''hline'' (num @ '' '')"
  shows "plot_table stats_cfg [[''r'' \<mapsto> Str ''a'', ''c'' \<mapsto> Str ''x'', ''v'' \<mapsto> Num v]]
    = ([[''r'' \<mapsto> Str ''a'', ''c'' \<mapsto> Str ''x'', ''v'' \<mapsto> Num w]],
       Inr \<lparr>ret_s = table_of num, console = [''Could not find  zz'', table_of num],
            written = None\<rparr>)"
proof -
  let ?scaled = "[[''r'' \<mapsto> Str ''a'', ''c'' \<mapsto> Str ''x'', ''v'' \<mapsto> Num w]]"
  let ?rows = "[Str ''a'' \<mapsto> ([Str ''x'' \<mapsto> Some w], [Str ''x'' \<mapsto> None])]"
  have sc: "scale_column ''v'' (FloatS 2) [[''r'' \<mapsto> Str ''a'', ''c'' \<mapsto> Str ''x'', ''v'' \<mapsto> Num v]]
      = Inr ?scaled"
    using assms(3) by (simp add: scale_column_def get_column_def)
  have ag: "aggregate stats_cfg (sanitize stats_cfg ?scaled) = Inr ?rows"
    by (simp add: aggregate_eval stats_cfg_fields sanitize_map san_cell_def replace_cell_def)
  have dr: "data_row stats_cfg ?rows ''a'' [Str ''x'' \<mapsto> Some w] [Str ''x'' \<mapsto> None]
      = Inr (bs @ ''textbf{a} &  '' @ num @ '' '')"
    using assms(1,2) by (simp add: row_eval stats_cfg_fields fm del: fmt_float.simps)
  have lp: "row_loop stats_cfg ?rows 0 (row_order stats_cfg)
      = Inr ([bs @ ''textbf{a} &  '' @ num @ '' '', bs @ ''textbf{zz} & '',
              bs @ ''hline'', bs @ ''textbf{a} &  '' @ num @ '' ''],
             [''Could not find  zz''])"
    by (simp add: stats_cfg_fields(10-) dr colour_def blank_row_def diagnostic_def hline_row_def
        row_label_def display_def clean_text_def replace_char_def textbf_def col_sep_def)
  have rn: "render stats_cfg (sanitize stats_cfg ?scaled)
      = Inr \<lparr>ret_s = table_of num, console = [''Could not find  zz'', table_of num],
            written = None\<rparr>"
    using nh
    by (simp add: render_eval ag lp stats_cfg_fields(10,12-) table_of_def del: row_loop.simps)
  show ?thesis
    by (simp add: plot_table_def stats_cfg_fields(3,9) sc rn)
qed

lemma stats_first_call:
  "plot_table stats_cfg demo_frame
    = ([[''r'' \<mapsto> Str ''a'', ''c'' \<mapsto> Str ''x'', ''v'' \<mapsto> Num 2]],
       Inr \<lparr>ret_s = table_of ''2.00'', console = [''Could not find  zz'', table_of ''2.00''],
            written = None\<rparr>)"
  unfolding demo_frame_def
  by (rule stats_plot [OF _ _ _ fmt_float_two]) simp_all

lemma stats_second_call:
  "plot_table stats_cfg [[''r'' \<mapsto> Str ''a'', ''c'' \<mapsto> Str ''x'', ''v'' \<mapsto> Num 2]]
    = ([[''r'' \<mapsto> Str ''a'', ''c'' \<mapsto> Str ''x'', ''v'' \<mapsto> Num 4]],
       Inr \<lparr>ret_s = table_of ''4.00'', console = [''Could not find  zz'', table_of ''4.00''],
            written = None\<rparr>)"
  by (rule stats_plot [OF _ _ _ fmt_float_four]) simp_all

lemma plain_cfg_fields:
  "col_key plain_cfg = ''c''"
  "row_key plain_cfg = ''r''"
  "cell_key plain_cfg = ''v''"
  "error_scaling plain_cfg = 1"
  "missing_fill_value plain_cfg = 7"
  "error_fill_value plain_cfg = 3444 / 10000"
  "err_key plain_cfg = None"
  "compute_err_fn plain_cfg = None"
  "value_scaling plain_cfg = FloatS 1"
  "col_order plain_cfg = [''x'']"
  "row_order plain_cfg = [''a'']"
  "renames plain_cfg = Map.empty"
  "n_decimals plain_cfg = 2"
  "get_row_highlights plain_cfg = None"
  "get_col_highlights plain_cfg = None"
  "make_col_header plain_cfg = None"
  "x_label plain_cfg = []"
  "y_label plain_cfg = []"
  "skip_toprule plain_cfg = False"
  "include_err plain_cfg"
  "write_to plain_cfg = None"
  "add_tabular plain_cfg"
  "add_botrule plain_cfg = False"
  "name_bold_fn plain_cfg = None"
  "show_row_labels plain_cfg"
  "show_col_labels plain_cfg"
  "midrule_formatting plain_cfg = bs @ ''midrule'' @ nl"
  "botrule_formatting plain_cfg = bs @ ''bottomrule''"
  "text_columns plain_cfg = Map.empty"
  "alternating_color_rows plain_cfg = False"
  "custom_cell_format_fn plain_cfg = None"
  by (simp_all add: plain_cfg_def defaults_def)

lemma missing_int_one:
  "plot_table (plain_cfg\<lparr>value_scaling := IntS 1\<rparr>) missing_frame
    = (missing_frame,
       Inr \<lparr>ret_s = plain_table ''-'', console = [plain_table ''-''], written = None\<rparr>)"
proof -
  let ?cfg = "plain_cfg\<lparr>value_scaling := IntS 1\<rparr>"
  let ?rows = "[Str ''a'' \<mapsto> ([Str ''x'' \<mapsto> Some (7)], [Str ''x'' \<mapsto> None])]"
  have sc: "scale_column ''v'' (IntS 1) missing_frame = Inr missing_frame"
    by (simp add: scale_column_def get_column_def missing_frame_def)
  have ag: "aggregate ?cfg (sanitize ?cfg missing_frame) = Inr ?rows"
    by (simp add: aggregate_eval plain_cfg_fields sanitize_map san_cell_def replace_cell_def
        missing_frame_def)
  have dr: "data_row ?cfg ?rows ''a'' [Str ''x'' \<mapsto> Some (7)] [Str ''x'' \<mapsto> None]
      = Inr (bs @ ''textbf{a} & -'')"
    by (simp add: row_eval plain_cfg_fields)
  have lp: "row_loop ?cfg ?rows 0 (row_order plain_cfg) = Inr ([bs @ ''textbf{a} & -''], [])"
    by (simp add: plain_cfg_fields dr colour_def)
  have rn: "render ?cfg (sanitize ?cfg missing_frame)
      = Inr \<lparr>ret_s = plain_table ''-'', console = [plain_table ''-''], written = None\<rparr>"
    by (simp add: render_eval ag lp plain_cfg_fields(10,12-) plain_table_def
        del: row_loop.simps)
  show ?thesis
    by (simp add: plot_table_def plain_cfg_fields sc rn)
qed

lemma error_int_one:
  "plot_table (plain_cfg\<lparr>value_scaling := IntS 1\<rparr>) error_frame
    = (error_frame,
       Inr \<lparr>ret_s = plain_table ''E'', console = [plain_table ''E''], written = None\<rparr>)"
proof -
  let ?cfg = "plain_cfg\<lparr>value_scaling := IntS 1\<rparr>"
  let ?rows = "[Str ''a'' \<mapsto> ([Str ''x'' \<mapsto> Some (861 / 2500)], [Str ''x'' \<mapsto> None])]"
  have sc: "scale_column ''v'' (IntS 1) error_frame = Inr error_frame"
    by (simp add: scale_column_def get_column_def error_frame_def)
  have ag: "aggregate ?cfg (sanitize ?cfg error_frame) = Inr ?rows"
    by (simp add: aggregate_eval plain_cfg_fields sanitize_map san_cell_def replace_cell_def
        error_frame_def)
  have dr: "data_row ?cfg ?rows ''a'' [Str ''x'' \<mapsto> Some (861 / 2500)] [Str ''x'' \<mapsto> None]
      = Inr (bs @ ''textbf{a} & E'')"
    by (simp add: row_eval plain_cfg_fields)
  have lp: "row_loop ?cfg ?rows 0 (row_order plain_cfg) = Inr ([bs @ ''textbf{a} & E''], [])"
    by (simp add: plain_cfg_fields dr colour_def)
  have rn: "render ?cfg (sanitize ?cfg error_frame)
      = Inr \<lparr>ret_s = plain_table ''E'', console = [plain_table ''E''], written = None\<rparr>"
    by (simp add: render_eval ag lp plain_cfg_fields(10,12-) plain_table_def
        del: row_loop.simps)
  show ?thesis
    by (simp add: plot_table_def plain_cfg_fields sc rn)
qed

section \<open>C1: the mean and the sample standard deviation of a cell\<close>





section \<open>C2: calling twice on the same frame\<close>

text \<open>
  C2, as amended. When \<^verbatim>\<open>value_scaling\<close> is 1 (the default 1.0, or the integer),
  a second call on the frame object the first call was given, with the same
  configuration, has the outcome of the first call: the same returned string, the
  same console lines, the same exception. For another \<^verbatim>\<open>value_scaling\<close> the second
  call reads the value column as the first call left it, scaled once already.
\<close>

theorem second_call_same_output:
  "(scale_factor (value_scaling cfg) = 1 \<longrightarrow>
      plot_table cfg (fst (plot_table cfg df)) = plot_table cfg df)
   \<and> (\<forall>e. scale_column (cell_key cfg) (value_scaling cfg) df = Inl e \<longrightarrow>
          plot_table cfg (fst (plot_table cfg df)) = plot_table cfg df)
   \<and> (\<forall>scaled. scale_column (cell_key cfg) (value_scaling cfg) df = Inr scaled \<longrightarrow>
          snd (plot_table cfg df) = render cfg (sanitize cfg scaled)
        \<and> plot_table cfg (fst (plot_table cfg df)) = plot_table cfg scaled)"
proof (intro conjI allI impI)
  assume "scale_factor (value_scaling cfg) = 1"
  then have "fst (plot_table cfg df) = df"
    by (rule scale_one_unchanged)
  then show "plot_table cfg (fst (plot_table cfg df)) = plot_table cfg df"
    by simp
next
  fix e
  assume "scale_column (cell_key cfg) (value_scaling cfg) df = Inl e"
  then have "fst (plot_table cfg df) = df"
    by (simp add: plot_table_def)
  then show "plot_table cfg (fst (plot_table cfg df)) = plot_table cfg df"
    by simp
next
  fix scaled
  assume sc: "scale_column (cell_key cfg) (value_scaling cfg) df = Inr scaled"
  then show "snd (plot_table cfg df) = render cfg (sanitize cfg scaled)"
    by (simp add: plot_table_def)
  from sc have "fst (plot_table cfg df) = scaled"
    by (simp add: plot_table_def)
  then show "plot_table cfg (fst (plot_table cfg df)) = plot_table cfg scaled"
    by simp
qed

theorem second_call_same_output_witness:
  "scale_factor (value_scaling demo_cfg) = 1
   \<and> plot_table demo_cfg (fst (plot_table demo_cfg demo_frame)) = plot_table demo_cfg demo_frame
   \<and> snd (plot_table demo_cfg (fst (plot_table demo_cfg demo_frame)))
       = Inr \<lparr>ret_s = demo_table, console = [''Could not find  zz'', demo_table], written = None\<rparr>"
proof -
  have one: "scale_factor (value_scaling demo_cfg) = 1"
    by (simp add: demo_cfg_fields)
  from second_call_same_output [of demo_cfg demo_frame] one
  have "plot_table demo_cfg (fst (plot_table demo_cfg demo_frame)) = plot_table demo_cfg demo_frame"
    by blast
  then show ?thesis
    using one by (simp add: demo_plot)
qed

text \<open>
  C2 as stated fails: with \<^verbatim>\<open>value_scaling = 2.0\<close> and one record of value 1, the
  first call prints 2.00 in the cell and leaves 2 in the frame; the second call on
  that frame prints 4.00.
\<close>

theorem second_call_differs_counterexample:
  "map_sum id ret_s (snd (plot_table stats_cfg demo_frame)) = Inr (table_of ''2.00'')
   \<and> map_sum id ret_s (snd (plot_table stats_cfg (fst (plot_table stats_cfg demo_frame))))
       = Inr (table_of ''4.00'')
   \<and> table_of ''2.00'' \<noteq> table_of ''4.00''"
  by (simp add: stats_first_call stats_second_call table_of_def)

section \<open>C3: what the call does to the frame of the caller\<close>




section \<open>C4: the missing marker in the value column\<close>

text \<open>
  C4 says that a row group whose records all hold the string \<^verbatim>\<open>missing\<close> in the
  value column is rendered with \<^verbatim>\<open>-\<close> in its cells, for every
  \<^verbatim>\<open>value_scaling\<close>. The code replaces the string at line 103, but only after line
  95 has multiplied the column. With every argument at its default the multiplier
  is the float 1.0, the product of a string and a float raises \<^verbatim>\<open>TypeError\<close>, and
  no table is rendered. With the integer 2 the cell becomes
  \<^verbatim>\<open>missingmissing\<close>, which line 103 does not replace, and the mean fails. Only
  with the integer 1 does the call reach the row loop, where the cell is \<^verbatim>\<open>-\<close>.
\<close>

theorem missing_marker_raises:
  "plot_table plain_cfg missing_frame = (missing_frame, Inl TypeError)
   \<and> snd (plot_table (plain_cfg\<lparr>value_scaling := IntS 2\<rparr>) missing_frame) = Inl TypeError
   \<and> map_sum id ret_s (snd (plot_table (plain_cfg\<lparr>value_scaling := IntS 1\<rparr>) missing_frame))
       = Inr (plain_table ''-'')"
proof -
  have 1: "plot_table plain_cfg missing_frame = (missing_frame, Inl TypeError)"
    by (simp add: plot_table_def plain_cfg_fields scale_column_def get_column_def missing_frame_def)
  have sc: "scale_column ''v'' (IntS 2) missing_frame
      = Inr [[''r'' \<mapsto> Str ''a'', ''c'' \<mapsto> Str ''x'', ''v'' \<mapsto> Str ''missingmissing'']]"
    by (simp add: scale_column_def get_column_def missing_frame_def numeral_2_eq_2)
  have 2: "snd (plot_table (plain_cfg\<lparr>value_scaling := IntS 2\<rparr>) missing_frame) = Inl TypeError"
    by (simp add: plot_table_def plain_cfg_fields sc render_def aggregate_eval sanitize_map
        san_cell_def replace_cell_def)
  have 3: "map_sum id ret_s (snd (plot_table (plain_cfg\<lparr>value_scaling := IntS 1\<rparr>) missing_frame))
       = Inr (plain_table ''-'')"
    by (simp add: missing_int_one)
  show ?thesis using 1 2 3 by simp
qed

section \<open>C5: the error marker in the value column\<close>

text \<open>
  C5 says that a row group whose records all hold the string \<^verbatim>\<open>error\<close> in the
  value column is rendered with \<^verbatim>\<open>E\<close> in its cells. As for the missing marker,
  line 95 multiplies the column before line 104 replaces the string: with every
  argument at its default the call raises \<^verbatim>\<open>TypeError\<close> and renders nothing. With
  the integer 1 as \<^verbatim>\<open>value_scaling\<close> the cell is \<^verbatim>\<open>E\<close>.
\<close>

theorem error_marker_raises:
  "plot_table plain_cfg error_frame = (error_frame, Inl TypeError)
   \<and> map_sum id ret_s (snd (plot_table (plain_cfg\<lparr>value_scaling := IntS 1\<rparr>) error_frame))
       = Inr (plain_table ''E'')"
proof -
  have 1: "plot_table plain_cfg error_frame = (error_frame, Inl TypeError)"
    by (simp add: plot_table_def plain_cfg_fields scale_column_def get_column_def error_frame_def)
  have 3: "map_sum id ret_s (snd (plot_table (plain_cfg\<lparr>value_scaling := IntS 1\<rparr>) error_frame))
       = Inr (plain_table ''E'')"
    by (simp add: error_int_one)
  show ?thesis using 1 3 by simp
qed

section \<open>C6: an error column without NaN\<close>



section \<open>C7: the break marker in the row order\<close>





section \<open>C8: a row key without aggregated data\<close>

text \<open>
  C8. A key of the row order that the aggregated groups do not have yields a row
  whose data cells are all empty, and one console line \<^verbatim>\<open>Could not find\<close>, after
  which the loop goes on. When the call returns, the body has one line per entry of
  the row order, the line of an absent key is its label joined with one empty cell
  per column, and the console holds exactly the diagnostics of the absent keys, in
  order, before the final print. No exception comes from an absent key: the loop
  returns if and only if every other data row can be formatted.
\<close>

theorem absent_row_key:
  "(plot_table cfg df = (df', Inr out) \<longrightarrow>
      (\<exists>rows body.
          aggregate cfg (sanitize cfg df') = Inr rows
        \<and> row_loop cfg rows 0 (row_order cfg)
            = Inr (body, map diagnostic (filter (absent rows) (row_order cfg)))
        \<and> length body = length (row_order cfg)
        \<and> (\<forall>j<length (row_order cfg). absent rows (row_order cfg ! j) \<longrightarrow>
              body ! j = join col_sep (row_label cfg (row_order cfg ! j)
                                        @ replicate (length (col_order cfg)) []))
        \<and> console out = map diagnostic (filter (absent rows) (row_order cfg))
            @ [case write_to cfg of None \<Rightarrow> ret_s out | Some path \<Rightarrow> ''Wrote result to '' @ path]))
   \<and> ((\<exists>ls ds. row_loop cfg rows i ks = Inr (ls, ds)) \<longleftrightarrow> list_all (row_ok cfg rows) ks)
   \<and> (absent rows k \<longrightarrow> row_ok cfg rows k)"
proof (intro conjI impI)
  assume a: "plot_table cfg df = (df', Inr out)"
  from render_console [OF plot_table_Inr [OF a]]
  obtain rows body where rows: "aggregate cfg (sanitize cfg df') = Inr rows"
    and loop: "row_loop cfg rows 0 (row_order cfg)
             = Inr (body, map diagnostic (filter (absent rows) (row_order cfg)))"
    and con: "console out = map diagnostic (filter (absent rows) (row_order cfg))
             @ [case write_to cfg of None \<Rightarrow> ret_s out | Some path \<Rightarrow> ''Wrote result to '' @ path]"
    by blast
  have len: "length body = length (row_order cfg)"
    using row_loop_length [OF loop] .
  have blank: "\<forall>j<length (row_order cfg). absent rows (row_order cfg ! j) \<longrightarrow>
              body ! j = join col_sep (row_label cfg (row_order cfg ! j)
                                        @ replicate (length (col_order cfg)) [])"
    using row_loop_blank [OF loop] by (simp add: blank_row_def map_replicate_const)
  show "\<exists>rows body.
          aggregate cfg (sanitize cfg df') = Inr rows
        \<and> row_loop cfg rows 0 (row_order cfg)
            = Inr (body, map diagnostic (filter (absent rows) (row_order cfg)))
        \<and> length body = length (row_order cfg)
        \<and> (\<forall>j<length (row_order cfg). absent rows (row_order cfg ! j) \<longrightarrow>
              body ! j = join col_sep (row_label cfg (row_order cfg ! j)
                                        @ replicate (length (col_order cfg)) []))
        \<and> console out = map diagnostic (filter (absent rows) (row_order cfg))
            @ [case write_to cfg of None \<Rightarrow> ret_s out | Some path \<Rightarrow> ''Wrote result to '' @ path]"
    using rows loop len blank con by blast
next
  show "(\<exists>ls ds. row_loop cfg rows i ks = Inr (ls, ds)) \<longleftrightarrow> list_all (row_ok cfg rows) ks"
    by (rule row_loop_succeeds_iff)
next
  assume "absent rows k"
  then show "row_ok cfg rows k" by (rule absent_row_ok)
qed

theorem absent_row_key_witness:
  "plot_table demo_cfg demo_frame =
     (demo_frame,
      Inr \<lparr>ret_s = demo_table, console = [''Could not find  zz'', demo_table], written = None\<rparr>)
   \<and> aggregate demo_cfg (sanitize demo_cfg demo_frame) = Inr demo_rows
   \<and> absent demo_rows ''zz''
   \<and> filter (absent demo_rows) (row_order demo_cfg) = [''zz'']
   \<and> row_loop demo_cfg demo_rows 0 (row_order demo_cfg)
       = Inr ([bs @ ''textbf{a} &  1.00 '', bs @ ''textbf{zz} & '', bs @ ''hline'',
               bs @ ''textbf{a} &  1.00 ''], [''Could not find  zz''])
   \<and> row_ok demo_cfg demo_rows ''zz''
   \<and> list_all (row_ok demo_cfg demo_rows) (row_order demo_cfg)"
proof -
  note inst = absent_row_key [of demo_cfg demo_frame demo_frame
      "\<lparr>ret_s = demo_table, console = [''Could not find  zz'', demo_table], written = None\<rparr>"
      demo_rows 0 "row_order demo_cfg" "''zz''"]
  have abs: "absent demo_rows ''zz''"
    by (simp add: absent_def demo_rows_def)
  have flt: "filter (absent demo_rows) (row_order demo_cfg) = [''zz'']"
    by (simp add: absent_def demo_rows_def demo_cfg_fields)
  have loop: "row_loop demo_cfg demo_rows 0 (row_order demo_cfg)
       = Inr ([bs @ ''textbf{a} &  1.00 '', bs @ ''textbf{zz} & '', bs @ ''hline'',
               bs @ ''textbf{a} &  1.00 ''], [''Could not find  zz''])"
    using demo_row_loop by (simp only: demo_cfg_fields)
  have ok: "row_ok demo_cfg demo_rows ''zz''"
    using inst abs by blast
  have all: "list_all (row_ok demo_cfg demo_rows) (row_order demo_cfg)"
    using inst loop by blast
  show ?thesis
    using demo_plot demo_aggregate abs flt loop ok all by blast
qed

section \<open>C9: the separator after a line\<close>

text \<open>
  C9. What follows a body line is decided by the substring test for \<^verbatim>\<open>hline\<close> on
  the text of the line. A data row is its cells joined by the column separator,
  after some prefix; when its label or any of its cells has the substring, so has
  the line, and the line is followed by what follows a section-break line at the
  same place: a bare newline, and nothing when it is the last line and no bottom
  rule is added. Every line is followed by the separator the test gives.
\<close>

theorem hline_substring_separator:
  "(contains ''hline'' cell \<and> cell \<in> set cells \<and> row_line = pfx @ join col_sep cells \<longrightarrow>
      contains ''hline'' row_line
    \<and> separator botrule_added is_last row_line = separator botrule_added is_last hline_row
    \<and> join_rows botrule_added (pre @ row_line # post)
        = join_rows True pre @ row_line
          @ (if post = [] \<and> \<not> botrule_added then [] else nl)
          @ join_rows botrule_added post)
   \<and> separator botrule_added is_last line
       = (if is_last \<and> \<not> botrule_added then []
          else if contains ''hline'' line then nl else row_sep)
   \<and> join_rows botrule_added (pre @ line # post)
       = join_rows True pre @ line @ separator botrule_added (post = []) line
         @ join_rows botrule_added post"
proof (intro conjI impI)
  assume a: "contains ''hline'' cell \<and> cell \<in> set cells \<and> row_line = pfx @ join col_sep cells"
  then show c: "contains ''hline'' row_line"
    using contains_join by blast
  show "separator botrule_added is_last row_line = separator botrule_added is_last hline_row"
    using c hline_row_contains by (simp add: separator_hline)
  show "join_rows botrule_added (pre @ row_line # post)
        = join_rows True pre @ row_line
          @ (if post = [] \<and> \<not> botrule_added then [] else nl)
          @ join_rows botrule_added post"
    using c by (simp only: join_rows_split separator_hline)
next
  show "separator botrule_added is_last line
       = (if is_last \<and> \<not> botrule_added then []
          else if contains ''hline'' line then nl else row_sep)"
    by (simp add: separator_def)
next
  show "join_rows botrule_added (pre @ line # post)
       = join_rows True pre @ line @ separator botrule_added (post = []) line
         @ join_rows botrule_added post"
    by (rule join_rows_split)
qed

theorem hline_substring_separator_witness:
  "contains ''hline'' (bs @ ''textbf{hline x}'')
   \<and> contains ''hline'' (bs @ ''textbf{hline x} &  1.00 '')
   \<and> join_rows False ([bs @ ''textbf{a} &  1.00 ''] @ (bs @ ''textbf{hline x} &  1.00 '')
                        # [bs @ ''textbf{b} &  2.00 ''])
       = bs @ ''textbf{a} &  1.00 '' @ row_sep
         @ bs @ ''textbf{hline x} &  1.00 '' @ nl
         @ bs @ ''textbf{b} &  2.00 ''"
proof -
  have c: "contains ''hline'' (bs @ ''textbf{hline x}'')"
    by (simp add: bs_def)
  have hyp: "contains ''hline'' (bs @ ''textbf{hline x}'')
      \<and> bs @ ''textbf{hline x}'' \<in> set [bs @ ''textbf{hline x}'', '' 1.00 '']
      \<and> bs @ ''textbf{hline x} &  1.00 ''
          = [] @ join col_sep [bs @ ''textbf{hline x}'', '' 1.00 '']"
    using c by (simp add: col_sep_def)
  have pre: "join_rows True [bs @ ''textbf{a} &  1.00 ''] = bs @ ''textbf{a} &  1.00 '' @ row_sep"
    by (simp add: separator_def bs_def)
  have post: "join_rows False [bs @ ''textbf{b} &  2.00 ''] = bs @ ''textbf{b} &  2.00 ''"
    by (simp add: separator_def)
  note inst = hline_substring_separator [of "bs @ ''textbf{hline x}''"
      "[bs @ ''textbf{hline x}'', '' 1.00 '']" "bs @ ''textbf{hline x} &  1.00 ''" "[]"
      False False "[bs @ ''textbf{a} &  1.00 '']" "[bs @ ''textbf{b} &  2.00 '']"]
  from inst hyp have "contains ''hline'' (bs @ ''textbf{hline x} &  1.00 '')
    \<and> join_rows False ([bs @ ''textbf{a} &  1.00 ''] @ (bs @ ''textbf{hline x} &  1.00 '')
                        # [bs @ ''textbf{b} &  2.00 ''])
        = join_rows True [bs @ ''textbf{a} &  1.00 ''] @ (bs @ ''textbf{hline x} &  1.00 '')
          @ (if [bs @ ''textbf{b} &  2.00 ''] = [] \<and> \<not> False then [] else nl)
          @ join_rows False [bs @ ''textbf{b} &  2.00 '']"
    by blast
  then show ?thesis
    using c by (simp only: pre post) simp
qed

section \<open>C10: the error column is selected per row group\<close>

text \<open>
  C10, as amended. Let \<^verbatim>\<open>err_key\<close> name a column without strings. The error
  column is selected for a row group exactly when each of its column groups has at
  least one number in the error column, that is, when no mean of the error column
  is NaN: means skip NaN cells, so a NaN beside a number in one cell does not
  unselect it. The decision reads the records of that row group only. A cell of a
  row group with the error column selected has the mean of the error column as its
  dispersion; a cell of another row group has what \<^verbatim>\<open>compute_err_fn\<close> returns for
  it when that is given, and else the sample standard deviation times
  \<^verbatim>\<open>error_scaling\<close>.
\<close>

theorem err_key_per_row_group:
  assumes "err_key cfg = Some ek"
    and "no_str ek df"
    and "no_str (cell_key cfg) df"
    and "has_col (row_key cfg) df"
    and "has_col (col_key cfg) df"
  shows "\<exists>d. prepared cfg df = Inr d
         \<and> snd (plot_table cfg df) = render cfg d
         \<and> (\<forall>a b. a \<noteq> NaN \<and> b \<noteq> NaN \<and> cell_records cfg a b d \<noteq> [] \<longrightarrow>
               (err_selected cfg d a \<longleftrightarrow>
                  (\<forall>k. k \<noteq> NaN \<and> cell_records cfg a k d \<noteq> []
                        \<longrightarrow> column_values ek (cell_records cfg a k d) \<noteq> []))
             \<and> dispersion cfg d a b
                 = Inr (if err_selected cfg d a
                        then Some (mean (column_values ek (cell_records cfg a b d)))
                        else (case compute_err_fn cfg of
                                None \<Rightarrow>
                                  Some (map_option (\<lambda>x. x * error_scaling cfg)
                                          (sample_std (column_values (cell_key cfg)
                                                         (cell_records cfg a b d))))
                              | Some f \<Rightarrow> f (cell_groups cfg d a) b)))"
proof -
  from prepared_total [OF assms(3)]
  obtain d where p: "prepared cfg df = Inr d"
    and hcol: "\<forall>k. has_col k df \<longrightarrow> has_col k d"
    and nstr: "\<forall>k. no_str k df \<longrightarrow> no_str k d"
    by (elim exE conjE)
  have hr: "has_col (row_key cfg) d" and hc: "has_col (col_key cfg) d"
    using hcol assms(4,5) by simp_all
  have ns: "no_str (cell_key cfg) d"
    using nstr assms(3) by simp
  have ne: "case err_key cfg of None \<Rightarrow> True | Some ek \<Rightarrow> no_str ek d"
    using assms(1,2) nstr by simp
  have cells: "(err_selected cfg d a \<longleftrightarrow>
                  (\<forall>k. k \<noteq> NaN \<and> cell_records cfg a k d \<noteq> []
                        \<longrightarrow> column_values ek (cell_records cfg a k d) \<noteq> []))
             \<and> dispersion cfg d a b
                 = Inr (if err_selected cfg d a
                        then Some (mean (column_values ek (cell_records cfg a b d)))
                        else (case compute_err_fn cfg of
                                None \<Rightarrow>
                                  Some (map_option (\<lambda>x. x * error_scaling cfg)
                                          (sample_std (column_values (cell_key cfg)
                                                         (cell_records cfg a b d))))
                              | Some f \<Rightarrow> f (cell_groups cfg d a) b))"
    if a: "a \<noteq> NaN" and b: "b \<noteq> NaN" and rec: "cell_records cfg a b d \<noteq> []" for a b
  proof
    show "err_selected cfg d a \<longleftrightarrow>
            (\<forall>k. k \<noteq> NaN \<and> cell_records cfg a k d \<noteq> []
                  \<longrightarrow> column_values ek (cell_records cfg a k d) \<noteq> [])"
      by (rule err_selected_iff [OF hc assms(1)])
    show "dispersion cfg d a b
            = Inr (if err_selected cfg d a
                   then Some (mean (column_values ek (cell_records cfg a b d)))
                   else (case compute_err_fn cfg of
                           None \<Rightarrow>
                             Some (map_option (\<lambda>x. x * error_scaling cfg)
                                     (sample_std (column_values (cell_key cfg)
                                                    (cell_records cfg a b d))))
                         | Some f \<Rightarrow> f (cell_groups cfg d a) b))"
      using dispersion_Inr [OF hr hc ns ne a b rec] assms(1) by simp
  qed
  show ?thesis
    using p plot_table_prepared [OF p] cells by blast
qed

theorem err_key_per_row_group_witness:
  "prepared err_cfg mixed_frame = Inr (sanitize err_cfg mixed_frame)
   \<and> \<not> err_selected err_cfg (sanitize err_cfg mixed_frame) (Str ''a'')
   \<and> dispersion err_cfg (sanitize err_cfg mixed_frame) (Str ''a'') (Str ''x'') = Inr (Some (Some 1))
   \<and> err_selected err_cfg (sanitize err_cfg mixed_frame) (Str ''b'')
   \<and> dispersion err_cfg (sanitize err_cfg mixed_frame) (Str ''b'') (Str ''x'')
       = Inr (Some (Some 2))"
proof -
  have h2: "no_str ''e'' mixed_frame"
    by (simp add: no_str_def mixed_frame_def)
  have h3: "no_str (cell_key err_cfg) mixed_frame"
    by (simp add: no_str_def mixed_frame_def err_cfg_fields)
  have h4: "has_col (row_key err_cfg) mixed_frame"
    by (simp add: has_col_def mixed_frame_def err_cfg_fields)
  have h5: "has_col (col_key err_cfg) mixed_frame"
    by (simp add: has_col_def mixed_frame_def err_cfg_fields)
  from err_key_per_row_group [OF err_cfg_fields(7) h2 h3 h4 h5]
  obtain d where p: "prepared err_cfg mixed_frame = Inr d"
    and cells: "\<forall>a b. a \<noteq> NaN \<and> b \<noteq> NaN \<and> cell_records err_cfg a b d \<noteq> [] \<longrightarrow>
             dispersion err_cfg d a b
                 = Inr (if err_selected err_cfg d a
                        then Some (mean (column_values ''e'' (cell_records err_cfg a b d)))
                        else (case compute_err_fn err_cfg of
                                None \<Rightarrow>
                                  Some (map_option (\<lambda>x. x * error_scaling err_cfg)
                                          (sample_std (column_values (cell_key err_cfg)
                                                         (cell_records err_cfg a b d))))
                              | Some f \<Rightarrow> f (cell_groups err_cfg d a) b))"
    by blast
  have d: "d = sanitize err_cfg mixed_frame"
    using p mixed_frame_prepared by simp
  have sa: "\<not> err_selected err_cfg (sanitize err_cfg mixed_frame) (Str ''a'')"
    by (simp add: err_selected_def keys_of_def group_rows_def frame_eval err_cfg_fields
        mixed_frame_def)
  have sb: "err_selected err_cfg (sanitize err_cfg mixed_frame) (Str ''b'')"
    by (simp add: err_selected_def keys_of_def group_rows_def frame_eval err_cfg_fields
        mixed_frame_def)
  have va: "column_values ''v'' (cell_records err_cfg (Str ''a'') (Str ''x'') (sanitize err_cfg mixed_frame))
      = [1, 2, 3]"
    by (simp add: frame_eval err_cfg_fields mixed_frame_def)
  have eb: "column_values ''e'' (cell_records err_cfg (Str ''b'') (Str ''x'') (sanitize err_cfg mixed_frame))
      = [1, 3]"
    by (simp add: frame_eval err_cfg_fields mixed_frame_def)
  have na: "cell_records err_cfg (Str ''a'') (Str ''x'') d \<noteq> []"
    unfolding d by (simp add: frame_eval err_cfg_fields mixed_frame_def)
  have nb: "cell_records err_cfg (Str ''b'') (Str ''x'') d \<noteq> []"
    unfolding d by (simp add: frame_eval err_cfg_fields mixed_frame_def)
  have da: "dispersion err_cfg (sanitize err_cfg mixed_frame) (Str ''a'') (Str ''x'') = Inr (Some (Some 1))"
    using cells na sa unfolding d
    by (simp add: va err_cfg_fields sample_std_def)
  have db: "dispersion err_cfg (sanitize err_cfg mixed_frame) (Str ''b'') (Str ''x'')
      = Inr (Some (Some 2))"
    using cells nb sb unfolding d
    by (simp add: eb mean_def)
  show ?thesis
    using mixed_frame_prepared sa sb da db by simp
qed

text \<open>
  C10 as stated fails: in the table below the error column of row group \<open>a\<close> holds
  a NaN, in a cell whose two other records have the error 2. The mean of the error
  column is 2, the series of means has no NaN, and the dispersion of the cell is 2,
  not the fallback: no \<^verbatim>\<open>compute_err_fn\<close> is given, and the sample standard
  deviation of the values 1, 2, 3 times \<^verbatim>\<open>error_scaling\<close> is 1.
\<close>

theorem nan_in_error_column_counterexample:
  "(nan_frame ! 0) ''r'' = Some (Str ''a'')
   \<and> (nan_frame ! 0) ''e'' = Some NaN
   \<and> compute_err_fn err_cfg = None
   \<and> prepared err_cfg nan_frame = Inr (sanitize err_cfg nan_frame)
   \<and> dispersion err_cfg (sanitize err_cfg nan_frame) (Str ''a'') (Str ''x'') = Inr (Some (Some 2))
   \<and> map_option (\<lambda>x. x * error_scaling err_cfg)
        (sample_std (column_values ''v''
           (cell_records err_cfg (Str ''a'') (Str ''x'') (sanitize err_cfg nan_frame))))
       = Some 1"
proof -
  have 1: "dispersion err_cfg (sanitize err_cfg nan_frame) (Str ''a'') (Str ''x'')
      = Inr (Some (Some 2))"
    by (simp add: aggregate_eval err_cfg_fields sanitize_map san_cell_def replace_cell_def
        nan_frame_def)
  have 2: "map_option (\<lambda>x. x * error_scaling err_cfg)
        (sample_std (column_values ''v''
           (cell_records err_cfg (Str ''a'') (Str ''x'') (sanitize err_cfg nan_frame))))
       = Some 1"
    by (simp add: frame_eval sample_std_def err_cfg_fields nan_frame_def)
  show ?thesis
    using 1 2 nan_frame_prepared by (simp add: err_cfg_fields nan_frame_def)
qed

end
